theory Spec2Isabelle
  imports Main "HOL-Library.Word"
begin

section \<open>The operation caches of the BDD engine (cache.go)\<close>

text \<open>
  Go's \<open>int\<close> is modelled by \<open>int\<close>: cache.go performs no arithmetic on node ids,
  results, operator codes or generation ids of the caches that could overflow (it
  compares them, stores them, and takes one remainder and one quotient).  The debug
  counters \<open>opHit\<close> and \<open>opMiss\<close> are incremented; no property below reads them, and
  their wrap-around is not modelled.  The generation counter \<open>quantsetID\<close> and the
  register \<open>quantset\<close> are \<open>int32\<close> in the source and are \<open>32 word\<close> here, so that
  \<open>quantsetID++\<close> wraps as it does in Go.

  A Go run-time panic is a value of type \<open>panic\<close>; every function that indexes a slice
  or divides returns \<open>panic + 'a\<close>.
\<close>

datatype panic = IndexOutOfRange | DivideByZero | MakeSliceLen

subsection \<open>Go's integer quotient and remainder\<close>

text \<open>Go truncates towards zero; the remainder has the sign of the dividend.\<close>

definition go_quo :: "int \<Rightarrow> int \<Rightarrow> int" where
  "go_quo x y = sgn x * sgn y * (\<bar>x\<bar> div \<bar>y\<bar>)"

definition go_rem :: "int \<Rightarrow> int \<Rightarrow> int" where
  "go_rem x y = sgn x * (\<bar>x\<bar> mod \<bar>y\<bar>)"

subsection \<open>Slot records and slot tables\<close>

text \<open>
  Two record types of the source share field names (\<open>res\<close>, \<open>a\<close>, \<open>c\<close>, \<open>ratio\<close>,
  \<open>opHit\<close>, \<open>opMiss\<close>, \<open>table\<close>), and three caches have a field \<open>id\<close>, two a field
  \<open>op\<close>.  A suffix or prefix keeps them apart: fields of \<open>data4n\<close> and \<open>data4ncache\<close> end
  in \<open>4\<close>, those of \<open>data3n\<close> and \<open>data3ncache\<close> in \<open>3\<close>; \<open>applycache.op\<close> is
  \<open>apply_op\<close>, \<open>quantcache.id\<close> is \<open>quant_id\<close>, \<open>appexcache.op\<close> and \<open>appexcache.id\<close>
  are \<open>appex_op\<close> and \<open>appex_id\<close>, \<open>replacecache.id\<close> is \<open>replace_id\<close>.
\<close>

record data4n =
  res4 :: int
  a4 :: int
  b4 :: int
  c4 :: int

record data4ncache =
  ratio4 :: int
  opHit4 :: int
  opMiss4 :: int
  table4 :: "data4n list"

record data3n =
  res3 :: int
  a3 :: int
  c3 :: int

record data3ncache =
  ratio3 :: int
  opHit3 :: int
  opMiss3 :: int
  table3 :: "data3n list"

text \<open>
  Struct embedding is record extension: a function on \<open>data4ncache\<close> is written on the
  record scheme, as the embedded struct's methods are promoted to the embedding struct.
\<close>

record applycache = data4ncache +
  apply_op :: int

type_synonym itecache = data4ncache

record quantcache = data4ncache +
  quant_id :: int

record appexcache = data4ncache +
  appex_op :: int
  appex_id :: int

record replacecache = data3ncache +
  replace_id :: int

text \<open>\<open>make([]T, size)\<close>: \<open>size\<close> zero values; a negative size panics.\<close>

definition zero4 :: data4n where
  "zero4 = \<lparr>res4 = 0, a4 = 0, b4 = 0, c4 = 0\<rparr>"

definition zero3 :: data3n where
  "zero3 = \<lparr>res3 = 0, a3 = 0, c3 = 0\<rparr>"

definition make_slice :: "'e \<Rightarrow> int \<Rightarrow> panic + 'e list" where
  "make_slice z sz = (if sz < 0 then Inl MakeSliceLen else Inr (replicate (nat sz) z))"

text \<open>\<open>t[i]\<close> read and written, with Go's bounds check.\<close>

definition slot_get :: "'e list \<Rightarrow> int \<Rightarrow> panic + 'e" where
  "slot_get t i = (if 0 \<le> i \<and> i < int (length t) then Inr (t ! nat i) else Inl IndexOutOfRange)"

definition slot_set :: "'e list \<Rightarrow> int \<Rightarrow> 'e \<Rightarrow> panic + 'e list" where
  "slot_set t i e = (if 0 \<le> i \<and> i < int (length t) then Inr (t[nat i := e]) else Inl IndexOutOfRange)"

text \<open>\<open>n % len(t)\<close>: Go panics on a zero divisor.\<close>

definition rem_len :: "int \<Rightarrow> 'e list \<Rightarrow> panic + int" where
  "rem_len n t = (if t = [] then Inl DivideByZero else Inr (go_rem n (int (length t))))"

subsection \<open>The prime search\<close>

text \<open>
  Modelled from the spec: \<open>bdd_prime_gte\<close> is called by \<open>init\<close> and \<open>resize\<close> and is not
  in cache.go.  The spec describes it as the prime-search utility
  \<open>primeAtLeast(n) \<rightarrow> prime \<ge> n\<close> by which a capacity is "rounded up to a prime", the
  effective capacity being "the smallest prime \<ge>" the requested size.  The model
  searches upwards from \<open>n\<close> for the first prime.
\<close>

definition is_prime :: "nat \<Rightarrow> bool" where
  "is_prime p = (2 \<le> p \<and> list_all (\<lambda>d. \<not> d dvd p) [2..<p])"

lemma is_prime_iff: "is_prime p \<longleftrightarrow> 2 \<le> p \<and> (\<forall>d. 2 \<le> d \<and> d < p \<longrightarrow> \<not> d dvd p)"
  by (auto simp: is_prime_def list_all_iff)

lemma prime_factor_exists: "2 \<le> n \<Longrightarrow> \<exists>p. is_prime p \<and> p dvd n"
proof (induction n rule: less_induct)
  case (less n)
  show ?case
  proof (cases "is_prime n")
    case True
    then show ?thesis by (blast intro: dvd_refl)
  next
    case False
    with less.prems obtain d where d: "2 \<le> d" "d < n" "d dvd n"
      by (auto simp: is_prime_iff)
    from less.IH [OF d(2) d(1)] obtain p where "is_prime p" "p dvd d" by blast
    with d(3) show ?thesis by (blast intro: dvd_trans)
  qed
qed

lemma prime_above: "\<exists>p. is_prime p \<and> n \<le> p"
proof -
  have "2 \<le> fact n + (1::nat)"
    using fact_ge_1 [of n, where ?'a = nat] by linarith
  then obtain p where p: "is_prime p" "p dvd fact n + 1"
    using prime_factor_exists by blast
  have "n \<le> p"
  proof (rule ccontr)
    assume "\<not> n \<le> p"
    moreover from p(1) have "2 \<le> p" by (simp add: is_prime_iff)
    ultimately have "p dvd fact n" by (intro dvd_fact) auto
    with p(2) have "p dvd 1" using dvd_add_right_iff [of p "fact n" 1] by blast
    with \<open>2 \<le> p\<close> show False by simp
  qed
  with p(1) show ?thesis by blast
qed

function prime_from :: "nat \<Rightarrow> nat" where
  "prime_from n = (if is_prime n then n else prime_from (Suc n))"
  by pat_completeness auto
termination
proof (relation "measure (\<lambda>n. (LEAST p. is_prime p \<and> n \<le> p) - n)")
  show "wf (measure (\<lambda>n. (LEAST p. is_prime p \<and> n \<le> p) - n))" by simp
next
  fix n assume np: "\<not> is_prime n"
  let ?P = "\<lambda>m p. is_prime p \<and> m \<le> p"
  obtain q where q: "?P n q" using prime_above by blast
  have l: "?P n (LEAST p. ?P n p)" using q by (rule LeastI)
  with np have "(LEAST p. ?P n p) \<noteq> n" by auto
  with l have gt: "Suc n \<le> (LEAST p. ?P n p)" by simp
  with l have "?P (Suc n) (LEAST p. ?P n p)" by simp
  then have "(LEAST p. ?P (Suc n) p) \<le> (LEAST p. ?P n p)" by (rule Least_le)
  with gt show "(Suc n, n) \<in> measure (\<lambda>n. (LEAST p. is_prime p \<and> n \<le> p) - n)"
    by simp
qed

declare prime_from.simps [simp del]

definition bdd_prime_gte :: "int \<Rightarrow> int" where
  "bdd_prime_gte src = int (prime_from (nat src))"

subsection \<open>Slot tables: init, resize, reset\<close>

text \<open>
  The methods \<open>init\<close>, \<open>resize\<close> and \<open>reset\<close> exist on both slot tables; those of
  \<open>data4ncache\<close> end in \<open>4\<close> here, those of \<open>data3ncache\<close> in \<open>3\<close>.
\<close>

definition reset4 :: "'z data4ncache_scheme \<Rightarrow> 'z data4ncache_scheme" where
  "reset4 bc = bc\<lparr>table4 := map (\<lambda>e. e\<lparr>a4 := - 1\<rparr>) (table4 bc)\<rparr>"

definition init4 :: "'z data4ncache_scheme \<Rightarrow> int \<Rightarrow> int \<Rightarrow> panic + 'z data4ncache_scheme" where
  "init4 bc sz ratio =
     (case make_slice zero4 (bdd_prime_gte sz) of
        Inl p \<Rightarrow> Inl p
      | Inr t \<Rightarrow> Inr (reset4 (bc\<lparr>table4 := t, ratio4 := ratio\<rparr>)))"

definition resize4 :: "'z data4ncache_scheme \<Rightarrow> int \<Rightarrow> panic + 'z data4ncache_scheme" where
  "resize4 bc sz =
     (if ratio4 bc > 0
      then (case make_slice zero4 (bdd_prime_gte (go_quo sz (ratio4 bc))) of
              Inl p \<Rightarrow> Inl p
            | Inr t \<Rightarrow> Inr (reset4 (bc\<lparr>table4 := t\<rparr>)))
      else Inr (reset4 bc))"

definition reset3 :: "'z data3ncache_scheme \<Rightarrow> 'z data3ncache_scheme" where
  "reset3 bc = bc\<lparr>table3 := map (\<lambda>e. e\<lparr>a3 := - 1\<rparr>) (table3 bc)\<rparr>"

definition init3 :: "'z data3ncache_scheme \<Rightarrow> int \<Rightarrow> int \<Rightarrow> panic + 'z data3ncache_scheme" where
  "init3 bc sz ratio =
     (case make_slice zero3 (bdd_prime_gte sz) of
        Inl p \<Rightarrow> Inl p
      | Inr t \<Rightarrow> Inr (reset3 (bc\<lparr>table3 := t, ratio3 := ratio\<rparr>)))"

definition resize3 :: "'z data3ncache_scheme \<Rightarrow> int \<Rightarrow> panic + 'z data3ncache_scheme" where
  "resize3 bc sz =
     (if ratio3 bc > 0
      then (case make_slice zero3 (bdd_prime_gte (go_quo sz (ratio3 bc))) of
              Inl p \<Rightarrow> Inl p
            | Inr t \<Rightarrow> Inr (reset3 (bc\<lparr>table3 := t\<rparr>)))
      else Inr (reset3 bc))"

text \<open>\<open>if _DEBUG { bc.opHit++ }\<close> and \<open>if _DEBUG { bc.opMiss++ }\<close>.\<close>

definition hit4 :: "bool \<Rightarrow> 'z data4ncache_scheme \<Rightarrow> 'z data4ncache_scheme" where
  "hit4 DEBUG bc = (if DEBUG then bc\<lparr>opHit4 := opHit4 bc + 1\<rparr> else bc)"

definition miss4 :: "bool \<Rightarrow> 'z data4ncache_scheme \<Rightarrow> 'z data4ncache_scheme" where
  "miss4 DEBUG bc = (if DEBUG then bc\<lparr>opMiss4 := opMiss4 bc + 1\<rparr> else bc)"

definition hit3 :: "bool \<Rightarrow> 'z data3ncache_scheme \<Rightarrow> 'z data3ncache_scheme" where
  "hit3 DEBUG bc = (if DEBUG then bc\<lparr>opHit3 := opHit3 bc + 1\<rparr> else bc)"

definition miss3 :: "bool \<Rightarrow> 'z data3ncache_scheme \<Rightarrow> 'z data3ncache_scheme" where
  "miss3 DEBUG bc = (if DEBUG then bc\<lparr>opMiss3 := opMiss3 bc + 1\<rparr> else bc)"

subsection \<open>The specialized caches\<close>

text \<open>
  The hash functions \<open>_TRIPLE\<close> and \<open>_PAIR\<close>, the flag \<open>_DEBUG\<close> and the operator
  code \<open>op_not\<close> are declared outside cache.go.  They are parameters of the functions
  that use them (\<open>TRIPLE\<close>, \<open>PAIR\<close>, \<open>DEBUG\<close>, \<open>op_not\<close>): a hash is any function from
  its operands and the table length to an \<open>int\<close>, and the index it returns goes through
  Go's bounds check like any other.  A lookup returns the value and the cache, whose
  counters it may have incremented; an insert returns its result argument and the cache.
\<close>

type_synonym pair_hash = "int \<Rightarrow> int \<Rightarrow> int \<Rightarrow> int"
type_synonym triple_hash = "int \<Rightarrow> int \<Rightarrow> int \<Rightarrow> int \<Rightarrow> int"

definition matchapply :: "triple_hash \<Rightarrow> bool \<Rightarrow> applycache \<Rightarrow> int \<Rightarrow> int \<Rightarrow> panic + int \<times> applycache" where
  "matchapply TRIPLE DEBUG bc left right =
     (case slot_get (table4 bc) (TRIPLE left right (apply_op bc) (int (length (table4 bc)))) of
        Inl p \<Rightarrow> Inl p
      | Inr entry \<Rightarrow>
          if a4 entry = left \<and> b4 entry = right \<and> c4 entry = apply_op bc
          then Inr (res4 entry, hit4 DEBUG bc)
          else Inr (- 1, miss4 DEBUG bc))"

definition setapply :: "triple_hash \<Rightarrow> applycache \<Rightarrow> int \<Rightarrow> int \<Rightarrow> int \<Rightarrow> panic + int \<times> applycache" where
  "setapply TRIPLE bc left right res =
     (case slot_set (table4 bc) (TRIPLE left right (apply_op bc) (int (length (table4 bc))))
             \<lparr>res4 = res, a4 = left, b4 = right, c4 = apply_op bc\<rparr> of
        Inl p \<Rightarrow> Inl p
      | Inr t \<Rightarrow> Inr (res, bc\<lparr>table4 := t\<rparr>))"

definition matchnot :: "int \<Rightarrow> bool \<Rightarrow> applycache \<Rightarrow> int \<Rightarrow> panic + int \<times> applycache" where
  "matchnot op_not DEBUG bc n =
     (case rem_len n (table4 bc) of
        Inl p \<Rightarrow> Inl p
      | Inr i \<Rightarrow>
          (case slot_get (table4 bc) i of
             Inl p \<Rightarrow> Inl p
           | Inr entry \<Rightarrow>
               if a4 entry = n \<and> c4 entry = op_not
               then Inr (res4 entry, hit4 DEBUG bc)
               else Inr (- 1, miss4 DEBUG bc)))"

text \<open>The composite literal of \<open>setnot\<close> names no \<open>b\<close>: the field is zero.\<close>

definition setnot :: "int \<Rightarrow> applycache \<Rightarrow> int \<Rightarrow> int \<Rightarrow> panic + int \<times> applycache" where
  "setnot op_not bc n res =
     (case rem_len n (table4 bc) of
        Inl p \<Rightarrow> Inl p
      | Inr i \<Rightarrow>
          (case slot_set (table4 bc) i \<lparr>res4 = res, a4 = n, b4 = 0, c4 = op_not\<rparr> of
             Inl p \<Rightarrow> Inl p
           | Inr t \<Rightarrow> Inr (res, bc\<lparr>table4 := t\<rparr>)))"

definition matchite :: "triple_hash \<Rightarrow> bool \<Rightarrow> itecache \<Rightarrow> int \<Rightarrow> int \<Rightarrow> int \<Rightarrow> panic + int \<times> itecache" where
  "matchite TRIPLE DEBUG bc f g h =
     (case slot_get (table4 bc) (TRIPLE f g h (int (length (table4 bc)))) of
        Inl p \<Rightarrow> Inl p
      | Inr entry \<Rightarrow>
          if a4 entry = f \<and> b4 entry = g \<and> c4 entry = h
          then Inr (res4 entry, hit4 DEBUG bc)
          else Inr (- 1, miss4 DEBUG bc))"

definition setite :: "triple_hash \<Rightarrow> itecache \<Rightarrow> int \<Rightarrow> int \<Rightarrow> int \<Rightarrow> int \<Rightarrow> panic + int \<times> itecache" where
  "setite TRIPLE bc f g h res =
     (case slot_set (table4 bc) (TRIPLE f g h (int (length (table4 bc))))
             \<lparr>res4 = res, a4 = f, b4 = g, c4 = h\<rparr> of
        Inl p \<Rightarrow> Inl p
      | Inr t \<Rightarrow> Inr (res, bc\<lparr>table4 := t\<rparr>))"

definition matchquant :: "pair_hash \<Rightarrow> bool \<Rightarrow> quantcache \<Rightarrow> int \<Rightarrow> int \<Rightarrow> panic + int \<times> quantcache" where
  "matchquant PAIR DEBUG bc n varset =
     (case slot_get (table4 bc) (PAIR n varset (int (length (table4 bc)))) of
        Inl p \<Rightarrow> Inl p
      | Inr entry \<Rightarrow>
          if a4 entry = n \<and> b4 entry = varset \<and> c4 entry = quant_id bc
          then Inr (res4 entry, hit4 DEBUG bc)
          else Inr (- 1, miss4 DEBUG bc))"

definition setquant :: "pair_hash \<Rightarrow> quantcache \<Rightarrow> int \<Rightarrow> int \<Rightarrow> int \<Rightarrow> panic + int \<times> quantcache" where
  "setquant PAIR bc n varset res =
     (case slot_set (table4 bc) (PAIR n varset (int (length (table4 bc))))
             \<lparr>res4 = res, a4 = n, b4 = varset, c4 = quant_id bc\<rparr> of
        Inl p \<Rightarrow> Inl p
      | Inr t \<Rightarrow> Inr (res, bc\<lparr>table4 := t\<rparr>))"

definition matchappex :: "triple_hash \<Rightarrow> bool \<Rightarrow> appexcache \<Rightarrow> int \<Rightarrow> int \<Rightarrow> panic + int \<times> appexcache" where
  "matchappex TRIPLE DEBUG bc left right =
     (case slot_get (table4 bc) (TRIPLE left right (appex_id bc) (int (length (table4 bc)))) of
        Inl p \<Rightarrow> Inl p
      | Inr entry \<Rightarrow>
          if a4 entry = left \<and> b4 entry = right \<and> c4 entry = appex_id bc
          then Inr (res4 entry, hit4 DEBUG bc)
          else Inr (- 1, miss4 DEBUG bc))"

definition setappex :: "triple_hash \<Rightarrow> appexcache \<Rightarrow> int \<Rightarrow> int \<Rightarrow> int \<Rightarrow> panic + int \<times> appexcache" where
  "setappex TRIPLE bc left right res =
     (case slot_set (table4 bc) (TRIPLE left right (appex_id bc) (int (length (table4 bc))))
             \<lparr>res4 = res, a4 = left, b4 = right, c4 = appex_id bc\<rparr> of
        Inl p \<Rightarrow> Inl p
      | Inr t \<Rightarrow> Inr (res, bc\<lparr>table4 := t\<rparr>))"

definition matchreplace :: "bool \<Rightarrow> replacecache \<Rightarrow> int \<Rightarrow> panic + int \<times> replacecache" where
  "matchreplace DEBUG bc n =
     (case rem_len n (table3 bc) of
        Inl p \<Rightarrow> Inl p
      | Inr i \<Rightarrow>
          (case slot_get (table3 bc) i of
             Inl p \<Rightarrow> Inl p
           | Inr entry \<Rightarrow>
               if a3 entry = n \<and> c3 entry = replace_id bc
               then Inr (res3 entry, hit3 DEBUG bc)
               else Inr (- 1, miss3 DEBUG bc)))"

definition setreplace :: "replacecache \<Rightarrow> int \<Rightarrow> int \<Rightarrow> panic + int \<times> replacecache" where
  "setreplace bc n res =
     (case rem_len n (table3 bc) of
        Inl p \<Rightarrow> Inl p
      | Inr i \<Rightarrow>
          (case slot_set (table3 bc) i \<lparr>res3 = res, a3 = n, c3 = replace_id bc\<rparr> of
             Inl p \<Rightarrow> Inl p
           | Inr t \<Rightarrow> Inr (res, bc\<lparr>table3 := t\<rparr>)))"

subsection \<open>The engine state and the cache manager\<close>

text \<open>
  Modelled from the spec: the struct \<open>buddy\<close>, its node type and its method
  \<open>seterror\<close> are declared outside cache.go.  Of a node only the fields the chain walk
  reads are kept (the spec's per-node \<open>(level, low, high)\<close> triple); of the engine, the
  fields cache.go names.  \<open>quantset\<close> is made by \<open>make([]int32, ...)\<close> and receives
  \<open>quantsetID\<close>, so both are \<open>int32\<close>; a level is only copied and used as an index and
  is an \<open>int\<close> here.  \<open>seterror\<close> records the error it formats in the field \<open>error\<close>
  (the spec: the call "fails with an illegal variable set error") and touches nothing
  else; the error value keeps the format string and its arguments unrendered.
\<close>

record buddynode =
  level :: int
  low :: int
  high :: int

datatype errorv = Errorf string "int list"

record buddy =
  nodes :: "buddynode list"
  varnum :: int
  error :: "errorv option"
  quantset :: "32 word list"
  quantsetID :: "32 word"
  quantlast :: int
  applycache :: applycache
  itecache :: itecache
  quantcache :: quantcache
  appexcache :: appexcache
  replacecache :: replacecache

definition seterror :: "string \<Rightarrow> int list \<Rightarrow> buddy \<Rightarrow> buddy" where
  "seterror format args b = b\<lparr>error := Some (Errorf format args)\<rparr>"

definition cachereset :: "buddy \<Rightarrow> buddy" where
  "cachereset b =
     b\<lparr>applycache := reset4 (applycache b),
       itecache := reset4 (itecache b),
       quantcache := reset4 (quantcache b),
       appexcache := reset4 (appexcache b),
       replacecache := reset3 (replacecache b)\<rparr>"


subsection \<open>The quantification variable-set register\<close>

definition MaxInt32 :: "32 word" where
  "MaxInt32 = 0x7FFFFFFF"

text \<open>
  The loop \<open>for i := n; i > 1; i = b.nodes[i].high\<close> of \<open>quantset2cache\<close>.  Nothing in
  the function bounds the walk: on a node table whose high links form a cycle it does
  not return, which is the value \<open>None\<close>.
\<close>

partial_function (option) quantset_loop :: "buddy \<Rightarrow> int \<Rightarrow> (panic + buddy) option" where
  "quantset_loop b i =
     (if i > 1
      then (case slot_get (nodes b) i of
              Inl p \<Rightarrow> Some (Inl p)
            | Inr nd \<Rightarrow>
                (case slot_set (quantset b) (level nd) (quantsetID b) of
                   Inl p \<Rightarrow> Some (Inl p)
                 | Inr qs \<Rightarrow> quantset_loop (b\<lparr>quantset := qs, quantlast := level nd\<rparr>) (high nd)))
      else Some (Inr b))"

declare quantset_loop.simps [code]

text \<open>
  \<open>quantset2cache\<close> returns the error (\<open>None\<close> is Go's \<open>nil\<close>) and the engine state.
\<close>

definition quantset2cache :: "buddy \<Rightarrow> int \<Rightarrow> (panic + errorv option \<times> buddy) option" where
  "quantset2cache b n =
     (if n < 2
      then (let b1 = seterror ''Illegal variable (%d) in varset to cache'' [n] b
            in Some (Inr (error b1, b1)))
      else (let b1 = b\<lparr>quantsetID := quantsetID b + 1\<rparr>
            in if quantsetID b1 = MaxInt32
               then (case make_slice 0 (varnum b1) of
                       Inl p \<Rightarrow> Some (Inl p)
                     | Inr qs \<Rightarrow>
                         map_option (map_sum id (Pair None))
                           (quantset_loop (b1\<lparr>quantset := qs, quantsetID := 1\<rparr>) n))
               else map_option (map_sum id (Pair None)) (quantset_loop b1 n)))"

subsection \<open>Notions used in the statements\<close>

text \<open>An index that passes Go's bounds check on the slice \<open>t\<close>.\<close>

definition in_range :: "int \<Rightarrow> 'e list \<Rightarrow> bool" where
  "in_range i t = (0 \<le> i \<and> i < int (length t))"

text \<open>The value a lookup returned, when it returned.\<close>

definition reports :: "panic + int \<times> 'c \<Rightarrow> int \<Rightarrow> bool" where
  "reports x v = (case x of Inl p \<Rightarrow> False | Inr (w, bc) \<Rightarrow> w = v)"

text \<open>
  The chain of a variable set: \<open>varchain ns n ls\<close> holds when the walk from node \<open>n\<close>
  along the high links stays inside the node table \<open>ns\<close>, reaches a terminal, and
  visits nodes of levels \<open>ls\<close>, in this order.
\<close>

inductive varchain :: "buddynode list \<Rightarrow> int \<Rightarrow> int list \<Rightarrow> bool" where
  varchain_end: "i \<le> 1 \<Longrightarrow> varchain ns i []"
| varchain_step: "1 < i \<Longrightarrow> i < int (length ns) \<Longrightarrow> varchain ns (high (ns ! nat i)) ls
     \<Longrightarrow> varchain ns i (level (ns ! nat i) # ls)"

code_pred varchain .

text \<open>The register after the levels \<open>ls\<close> were marked, in this order, with \<open>g\<close>.\<close>

fun mark :: "32 word list \<Rightarrow> int list \<Rightarrow> 32 word \<Rightarrow> 32 word list" where
  "mark qs [] g = qs"
| "mark qs (l # ls) g = mark (qs[nat l := g]) ls g"

subsection \<open>Example values\<close>

text \<open>
  Two hash functions into \<open>[0, n)\<close> and caches of capacity 7 with every slot
  invalid, as \<open>init\<close> leaves them.
\<close>

definition ex_triple :: triple_hash where
  "ex_triple x y z n = (x + 3 * y + 5 * z) mod n"

definition ex_pair :: pair_hash where
  "ex_pair x y n = (x + 3 * y) mod n"

definition ex_table4 :: "data4n list" where
  "ex_table4 = replicate 7 \<lparr>res4 = 0, a4 = - 1, b4 = 0, c4 = 0\<rparr>"

definition ex_table3 :: "data3n list" where
  "ex_table3 = replicate 7 \<lparr>res3 = 0, a3 = - 1, c3 = 0\<rparr>"

definition ex_apply :: applycache where
  "ex_apply = \<lparr>ratio4 = 0, opHit4 = 0, opMiss4 = 0, table4 = ex_table4, apply_op = 0\<rparr>"

definition ex_ite :: itecache where
  "ex_ite = \<lparr>ratio4 = 0, opHit4 = 0, opMiss4 = 0, table4 = ex_table4\<rparr>"

definition ex_quant :: quantcache where
  "ex_quant = \<lparr>ratio4 = 0, opHit4 = 0, opMiss4 = 0, table4 = ex_table4, quant_id = 1\<rparr>"

definition ex_appex :: appexcache where
  "ex_appex = \<lparr>ratio4 = 0, opHit4 = 0, opMiss4 = 0, table4 = ex_table4, appex_op = 0, appex_id = 3\<rparr>"

definition ex_replace :: replacecache where
  "ex_replace = \<lparr>ratio3 = 0, opHit3 = 0, opMiss3 = 0, table3 = ex_table3, replace_id = 0\<rparr>"

text \<open>
  An apply cache that holds the pair \<open>(3, 5)\<close> with result 9 under operator 2 (slot 0)
  and under operator 0 (slot 4).
\<close>

definition ex_apply_and :: applycache where
  "ex_apply_and = \<lparr>ratio4 = 0, opHit4 = 0, opMiss4 = 0,
     table4 = ex_table4[0 := \<lparr>res4 = 9, a4 = 3, b4 = 5, c4 = 2\<rparr>,
                        4 := \<lparr>res4 = 9, a4 = 3, b4 = 5, c4 = 0\<rparr>], apply_op = 0\<rparr>"

text \<open>
  A node table with the two terminals and the chain \<open>2 \<rightarrow> 3 \<rightarrow> 1\<close> over the levels 0 and
  2, and engine states around it: before a call, after the call that marks the chain with
  generation 6, one call before the counter reaches \<open>MaxInt32\<close> (level 1 still marked
  with generation 7), and after that call.
\<close>

definition ex_nodes :: "buddynode list" where
  "ex_nodes = [\<lparr>level = 3, low = 0, high = 0\<rparr>, \<lparr>level = 3, low = 1, high = 1\<rparr>,
               \<lparr>level = 0, low = 0, high = 3\<rparr>, \<lparr>level = 2, low = 0, high = 1\<rparr>]"

definition ex_buddy :: buddy where
  "ex_buddy = \<lparr>nodes = ex_nodes, varnum = 3, error = None, quantset = [5, 0, 5],
     quantsetID = 5, quantlast = 0, applycache = ex_apply_and, itecache = ex_ite,
     quantcache = ex_quant, appexcache = ex_appex, replacecache = ex_replace\<rparr>"

definition ex_buddy_marked :: buddy where
  "ex_buddy_marked = ex_buddy\<lparr>quantset := [6, 0, 6], quantsetID := 6, quantlast := 2\<rparr>"

definition ex_buddy_last :: buddy where
  "ex_buddy_last = ex_buddy\<lparr>quantset := [5, 7, 5], quantsetID := MaxInt32 - 1\<rparr>"

definition ex_buddy_wrapped :: buddy where
  "ex_buddy_wrapped = ex_buddy\<lparr>quantset := [1, 0, 1], quantsetID := 1, quantlast := 2\<rparr>"

text \<open>
  A node table whose chain \<open>2 \<rightarrow> 3 \<rightarrow> 1\<close> visits level 2 before level 0, and the engine
  state after the call on it.
\<close>

definition ex_nodes_rev :: "buddynode list" where
  "ex_nodes_rev = [\<lparr>level = 3, low = 0, high = 0\<rparr>, \<lparr>level = 3, low = 1, high = 1\<rparr>,
                   \<lparr>level = 2, low = 0, high = 3\<rparr>, \<lparr>level = 0, low = 0, high = 1\<rparr>]"

definition ex_buddy_rev :: buddy where
  "ex_buddy_rev = ex_buddy\<lparr>nodes := ex_nodes_rev\<rparr>"

definition ex_buddy_rev_marked :: buddy where
  "ex_buddy_rev_marked = ex_buddy_rev\<lparr>quantset := [6, 0, 6], quantsetID := 6, quantlast := 0\<rparr>"


section \<open>Properties\<close>

subsection \<open>Indexing\<close>

lemma slot_get_in_range: "in_range i t \<Longrightarrow> slot_get t i = Inr (t ! nat i)"
  by (simp add: slot_get_def in_range_def)

lemma slot_set_in_range: "in_range i t \<Longrightarrow> slot_set t i e = Inr (t[nat i := e])"
  by (simp add: slot_set_def in_range_def)

lemma nth_update_in_range: "in_range i t \<Longrightarrow> t[nat i := e] ! nat i = e"
  by (simp add: in_range_def nat_less_iff)

lemma nth_in_range: "in_range i t \<Longrightarrow> t ! nat i \<in> set t"
  by (simp add: in_range_def nat_less_iff)

lemma go_rem_nonneg: "0 \<le> n \<Longrightarrow> 0 < m \<Longrightarrow> go_rem n m = n mod m"
  by (cases "n = 0") (simp_all add: go_rem_def)

lemma rem_len_nonneg:
  "0 \<le> n \<Longrightarrow> t \<noteq> [] \<Longrightarrow> rem_len n t = Inr (n mod int (length t))"
  by (simp add: rem_len_def go_rem_nonneg)

lemma rem_len_in_range: "0 \<le> n \<Longrightarrow> t \<noteq> [] \<Longrightarrow> in_range (n mod int (length t)) t"
  by (simp add: in_range_def)

lemma setapply_matchapply:
  assumes "in_range (TRIPLE left right (apply_op bc) (int (length (table4 bc)))) (table4 bc)"
  shows "\<exists>bc'. setapply TRIPLE bc left right r = Inr (r, bc')
          \<and> matchapply TRIPLE DEBUG bc' left right = Inr (r, hit4 DEBUG bc')"
  using assms
  by (simp add: setapply_def matchapply_def slot_set_in_range slot_get_in_range
      nth_update_in_range in_range_def)

lemma setite_matchite:
  assumes "in_range (TRIPLE f g h (int (length (table4 bc)))) (table4 bc)"
  shows "\<exists>bc'. setite TRIPLE bc f g h r = Inr (r, bc')
          \<and> matchite TRIPLE DEBUG bc' f g h = Inr (r, hit4 DEBUG bc')"
  using assms
  by (simp add: setite_def matchite_def slot_set_in_range slot_get_in_range
      nth_update_in_range in_range_def)

lemma setquant_matchquant:
  assumes "in_range (PAIR n varset (int (length (table4 bc)))) (table4 bc)"
  shows "\<exists>bc'. setquant PAIR bc n varset r = Inr (r, bc')
          \<and> matchquant PAIR DEBUG bc' n varset = Inr (r, hit4 DEBUG bc')"
  using assms
  by (simp add: setquant_def matchquant_def slot_set_in_range slot_get_in_range
      nth_update_in_range in_range_def)

lemma setappex_matchappex:
  assumes "in_range (TRIPLE left right (appex_id bc) (int (length (table4 bc)))) (table4 bc)"
  shows "\<exists>bc'. setappex TRIPLE bc left right r = Inr (r, bc')
          \<and> matchappex TRIPLE DEBUG bc' left right = Inr (r, hit4 DEBUG bc')"
  using assms
  by (simp add: setappex_def matchappex_def slot_set_in_range slot_get_in_range
      nth_update_in_range in_range_def)

lemma setreplace_matchreplace:
  assumes "0 \<le> n" and "table3 bc \<noteq> []"
  shows "\<exists>bc'. setreplace bc n r = Inr (r, bc')
          \<and> matchreplace DEBUG bc' n = Inr (r, hit3 DEBUG bc')"
  using assms rem_len_in_range [OF assms]
  by (simp add: setreplace_def matchreplace_def rem_len_nonneg slot_set_in_range
      slot_get_in_range nth_update_in_range in_range_def)

lemma setnot_matchnot:
  assumes "0 \<le> n" and "table4 bc \<noteq> []"
  shows "\<exists>bc'. setnot op_not bc n r = Inr (r, bc')
          \<and> matchnot op_not DEBUG bc' n = Inr (r, hit4 DEBUG bc')"
  using assms rem_len_in_range [OF assms]
  by (simp add: setnot_def matchnot_def rem_len_nonneg slot_set_in_range
      slot_get_in_range nth_update_in_range in_range_def)

text \<open>
  Claim C1.  In each of the five caches (apply, ite, quant, appex, replace), an insert
  of result \<open>r\<close> returns \<open>r\<close>, and the lookup of the same key that follows it,
  under the same discriminant, hits and returns \<open>r\<close>.  For the four hashed caches the
  index computed by the hash is an index of the table (so the table is not empty); for
  the replace cache the node id is not negative and the table is not empty.
\<close>

theorem insert_then_lookup:
  "(in_range (TRIPLE left right (apply_op ac) (int (length (table4 ac)))) (table4 ac) \<longrightarrow>
      (\<exists>ac'. setapply TRIPLE ac left right r = Inr (r, ac')
         \<and> matchapply TRIPLE DEBUG ac' left right = Inr (r, hit4 DEBUG ac')))
   \<and> (in_range (TRIPLE f g h (int (length (table4 ic)))) (table4 ic) \<longrightarrow>
      (\<exists>ic'. setite TRIPLE ic f g h r = Inr (r, ic')
         \<and> matchite TRIPLE DEBUG ic' f g h = Inr (r, hit4 DEBUG ic')))
   \<and> (in_range (PAIR n varset (int (length (table4 qc)))) (table4 qc) \<longrightarrow>
      (\<exists>qc'. setquant PAIR qc n varset r = Inr (r, qc')
         \<and> matchquant PAIR DEBUG qc' n varset = Inr (r, hit4 DEBUG qc')))
   \<and> (in_range (TRIPLE left right (appex_id xc) (int (length (table4 xc)))) (table4 xc) \<longrightarrow>
      (\<exists>xc'. setappex TRIPLE xc left right r = Inr (r, xc')
         \<and> matchappex TRIPLE DEBUG xc' left right = Inr (r, hit4 DEBUG xc')))
   \<and> (0 \<le> n \<and> table3 rc \<noteq> [] \<longrightarrow>
      (\<exists>rc'. setreplace rc n r = Inr (r, rc')
         \<and> matchreplace DEBUG rc' n = Inr (r, hit3 DEBUG rc')))"
  by (intro conjI impI)
    (simp_all add: setapply_matchapply setite_matchite setquant_matchquant
      setappex_matchappex setreplace_matchreplace)

lemmas ex_defs = ex_triple_def ex_pair_def ex_table4_def ex_table3_def ex_apply_def ex_ite_def
  ex_quant_def ex_appex_def ex_replace_def

theorem insert_then_lookup_witness:
  "in_range (ex_triple 3 5 (apply_op ex_apply) (int (length (table4 ex_apply)))) (table4 ex_apply)
   \<and> in_range (ex_triple 2 3 4 (int (length (table4 ex_ite)))) (table4 ex_ite)
   \<and> in_range (ex_pair 6 2 (int (length (table4 ex_quant)))) (table4 ex_quant)
   \<and> in_range (ex_triple 3 5 (appex_id ex_appex) (int (length (table4 ex_appex)))) (table4 ex_appex)
   \<and> (0::int) \<le> 6 \<and> table3 ex_replace \<noteq> []
   \<and> (\<exists>ac'. setapply ex_triple ex_apply 3 5 9 = Inr (9, ac')
         \<and> matchapply ex_triple True ac' 3 5 = Inr (9, hit4 True ac'))
   \<and> (\<exists>ic'. setite ex_triple ex_ite 2 3 4 9 = Inr (9, ic')
         \<and> matchite ex_triple True ic' 2 3 4 = Inr (9, hit4 True ic'))
   \<and> (\<exists>qc'. setquant ex_pair ex_quant 6 2 9 = Inr (9, qc')
         \<and> matchquant ex_pair True qc' 6 2 = Inr (9, hit4 True qc'))
   \<and> (\<exists>xc'. setappex ex_triple ex_appex 3 5 9 = Inr (9, xc')
         \<and> matchappex ex_triple True xc' 3 5 = Inr (9, hit4 True xc'))
   \<and> (\<exists>rc'. setreplace ex_replace 6 9 = Inr (9, rc')
         \<and> matchreplace True rc' 6 = Inr (9, hit3 True rc'))"
proof -
  have h: "in_range (ex_triple 3 5 (apply_op ex_apply) (int (length (table4 ex_apply)))) (table4 ex_apply)"
    "in_range (ex_triple 2 3 4 (int (length (table4 ex_ite)))) (table4 ex_ite)"
    "in_range (ex_pair 6 2 (int (length (table4 ex_quant)))) (table4 ex_quant)"
    "in_range (ex_triple 3 5 (appex_id ex_appex) (int (length (table4 ex_appex)))) (table4 ex_appex)"
    "(0::int) \<le> 6" "table3 ex_replace \<noteq> []"
    by (simp_all add: in_range_def ex_defs)
  with insert_then_lookup [of ex_triple 3 5 ex_apply 9 True 2 3 4 ex_ite ex_pair 6 2 ex_quant
      ex_appex ex_replace]
  show ?thesis by blast
qed

subsection \<open>Discriminants\<close>

lemma reports_Inr [simp]: "reports (Inr (w, bc)) v \<longleftrightarrow> w = v"
  by (simp add: reports_def)

lemma reports_Inl [simp]: "\<not> reports (Inl p) v"
  by (simp add: reports_def)

lemma nat_eq_in_range: "in_range i t \<Longrightarrow> in_range j t \<Longrightarrow> nat i = nat j \<longleftrightarrow> i = j"
  by (auto simp: in_range_def)

lemma setquant_other_id:
  assumes "in_range (PAIR n varset (int (length (table4 bc)))) (table4 bc)" and "d2 \<noteq> quant_id bc"
  shows "\<exists>bc'. setquant PAIR bc n varset r = Inr (r, bc')
          \<and> matchquant PAIR DEBUG bc' n varset = Inr (r, hit4 DEBUG bc')
          \<and> matchquant PAIR DEBUG (bc'\<lparr>quant_id := d2\<rparr>) n varset
              = Inr (- 1, miss4 DEBUG (bc'\<lparr>quant_id := d2\<rparr>))"
  using assms
  by (auto simp add: setquant_def matchquant_def slot_set_in_range slot_get_in_range
      nth_update_in_range in_range_def)

lemma setreplace_other_id:
  assumes "0 \<le> n" and "table3 bc \<noteq> []" and "d2 \<noteq> replace_id bc"
  shows "\<exists>bc'. setreplace bc n r = Inr (r, bc')
          \<and> matchreplace DEBUG bc' n = Inr (r, hit3 DEBUG bc')
          \<and> matchreplace DEBUG (bc'\<lparr>replace_id := d2\<rparr>) n
              = Inr (- 1, miss3 DEBUG (bc'\<lparr>replace_id := d2\<rparr>))"
  using assms rem_len_in_range [OF assms(1,2)]
  by (auto simp add: setreplace_def matchreplace_def rem_len_nonneg slot_set_in_range
      slot_get_in_range nth_update_in_range in_range_def)

lemma nth_update_cases:
  assumes "in_range i t" and "in_range j t"
  shows "t[nat i := e] ! nat j = (if i = j then e else t ! nat j)"
  using assms nat_eq_in_range [OF assms] by (auto simp: in_range_def nat_less_iff)

lemma setapply_other_op:
  assumes i1: "in_range (TRIPLE left right (apply_op bc) (int (length (table4 bc)))) (table4 bc)"
    and i2: "in_range (TRIPLE left right d2 (int (length (table4 bc)))) (table4 bc)"
    and d: "d2 \<noteq> apply_op bc"
    and pre: "list_all (\<lambda>e. \<not> (a4 e = left \<and> b4 e = right \<and> c4 e = d2)) (table4 bc)"
  shows "\<exists>bc'. setapply TRIPLE bc left right r = Inr (r, bc')
          \<and> matchapply TRIPLE DEBUG bc' left right = Inr (r, hit4 DEBUG bc')
          \<and> matchapply TRIPLE DEBUG (bc'\<lparr>apply_op := d2\<rparr>) left right
              = Inr (- 1, miss4 DEBUG (bc'\<lparr>apply_op := d2\<rparr>))"
proof -
  from pre nth_in_range [OF i2]
  have "\<not> (a4 (table4 bc ! nat (TRIPLE left right d2 (int (length (table4 bc))))) = left
      \<and> b4 (table4 bc ! nat (TRIPLE left right d2 (int (length (table4 bc))))) = right
      \<and> c4 (table4 bc ! nat (TRIPLE left right d2 (int (length (table4 bc))))) = d2)"
    by (auto simp: list_all_iff)
  with i1 i2 d show ?thesis
    by (auto simp add: setapply_def matchapply_def slot_set_in_range slot_get_in_range
        nth_update_cases [OF i1 i2] nth_update_in_range in_range_def)
qed

lemma setappex_other_id:
  assumes i1: "in_range (TRIPLE left right (appex_id bc) (int (length (table4 bc)))) (table4 bc)"
    and i2: "in_range (TRIPLE left right d2 (int (length (table4 bc)))) (table4 bc)"
    and d: "d2 \<noteq> appex_id bc"
    and pre: "list_all (\<lambda>e. \<not> (a4 e = left \<and> b4 e = right \<and> c4 e = d2)) (table4 bc)"
  shows "\<exists>bc'. setappex TRIPLE bc left right r = Inr (r, bc')
          \<and> matchappex TRIPLE DEBUG bc' left right = Inr (r, hit4 DEBUG bc')
          \<and> matchappex TRIPLE DEBUG (bc'\<lparr>appex_id := d2\<rparr>) left right
              = Inr (- 1, miss4 DEBUG (bc'\<lparr>appex_id := d2\<rparr>))"
proof -
  from pre nth_in_range [OF i2]
  have "\<not> (a4 (table4 bc ! nat (TRIPLE left right d2 (int (length (table4 bc))))) = left
      \<and> b4 (table4 bc ! nat (TRIPLE left right d2 (int (length (table4 bc))))) = right
      \<and> c4 (table4 bc ! nat (TRIPLE left right d2 (int (length (table4 bc))))) = d2)"
    by (auto simp: list_all_iff)
  with i1 i2 d show ?thesis
    by (auto simp add: setappex_def matchappex_def slot_set_in_range slot_get_in_range
        nth_update_cases [OF i1 i2] nth_update_in_range in_range_def)
qed

lemma setapply_other_op_value:
  assumes i1: "in_range (TRIPLE left right (apply_op bc) (int (length (table4 bc)))) (table4 bc)"
    and i2: "in_range (TRIPLE left right d2 (int (length (table4 bc)))) (table4 bc)"
    and d: "d2 \<noteq> apply_op bc"
  shows "\<exists>bc'. setapply TRIPLE bc left right r = Inr (r, bc')
          \<and> matchapply TRIPLE DEBUG bc' left right = Inr (r, hit4 DEBUG bc')
          \<and> (reports (matchapply TRIPLE DEBUG (bc'\<lparr>apply_op := d2\<rparr>) left right) (- 1)
              \<or> (\<exists>v. reports (matchapply TRIPLE DEBUG (bc'\<lparr>apply_op := d2\<rparr>) left right) v
                   \<and> reports (matchapply TRIPLE DEBUG (bc\<lparr>apply_op := d2\<rparr>) left right) v))"
  using i1 i2 d
  by (auto simp add: setapply_def matchapply_def slot_set_in_range slot_get_in_range
      nth_update_cases [OF i1 i2] nth_update_in_range in_range_def)

lemma setappex_other_id_value:
  assumes i1: "in_range (TRIPLE left right (appex_id bc) (int (length (table4 bc)))) (table4 bc)"
    and i2: "in_range (TRIPLE left right d2 (int (length (table4 bc)))) (table4 bc)"
    and d: "d2 \<noteq> appex_id bc"
  shows "\<exists>bc'. setappex TRIPLE bc left right r = Inr (r, bc')
          \<and> matchappex TRIPLE DEBUG bc' left right = Inr (r, hit4 DEBUG bc')
          \<and> (reports (matchappex TRIPLE DEBUG (bc'\<lparr>appex_id := d2\<rparr>) left right) (- 1)
              \<or> (\<exists>v. reports (matchappex TRIPLE DEBUG (bc'\<lparr>appex_id := d2\<rparr>) left right) v
                   \<and> reports (matchappex TRIPLE DEBUG (bc\<lparr>appex_id := d2\<rparr>) left right) v))"
  using i1 i2 d
  by (auto simp add: setappex_def matchappex_def slot_set_in_range slot_get_in_range
      nth_update_cases [OF i1 i2] nth_update_in_range in_range_def)

text \<open>
  Claim C2.  Insert a key with result \<open>r\<close> under a discriminant, then query the same
  key under another discriminant \<open>d2\<close>: the query never returns the entry just
  inserted, although the query under the first discriminant finds it.  In the quant and
  replace caches, whose slot index does not depend on the discriminant, the query is a
  miss.  In the apply and appex caches, whose slot index is hashed from the discriminant
  too, the query is a miss or returns what the same query returned before the insert;
  it is a miss when no slot of the table holds the key under \<open>d2\<close> from before (no
  collision).
\<close>

theorem discriminant_isolation:
  "(in_range (PAIR n varset (int (length (table4 qc)))) (table4 qc) \<and> d2 \<noteq> quant_id qc \<longrightarrow>
      (\<exists>qc'. setquant PAIR qc n varset r = Inr (r, qc')
         \<and> matchquant PAIR DEBUG qc' n varset = Inr (r, hit4 DEBUG qc')
         \<and> matchquant PAIR DEBUG (qc'\<lparr>quant_id := d2\<rparr>) n varset
             = Inr (- 1, miss4 DEBUG (qc'\<lparr>quant_id := d2\<rparr>))))
   \<and> (0 \<le> n \<and> table3 rc \<noteq> [] \<and> d2 \<noteq> replace_id rc \<longrightarrow>
      (\<exists>rc'. setreplace rc n r = Inr (r, rc')
         \<and> matchreplace DEBUG rc' n = Inr (r, hit3 DEBUG rc')
         \<and> matchreplace DEBUG (rc'\<lparr>replace_id := d2\<rparr>) n
             = Inr (- 1, miss3 DEBUG (rc'\<lparr>replace_id := d2\<rparr>))))
   \<and> (in_range (TRIPLE left right (apply_op ac) (int (length (table4 ac)))) (table4 ac)
       \<and> in_range (TRIPLE left right d2 (int (length (table4 ac)))) (table4 ac)
       \<and> d2 \<noteq> apply_op ac
       \<and> list_all (\<lambda>e. \<not> (a4 e = left \<and> b4 e = right \<and> c4 e = d2)) (table4 ac) \<longrightarrow>
      (\<exists>ac'. setapply TRIPLE ac left right r = Inr (r, ac')
         \<and> matchapply TRIPLE DEBUG ac' left right = Inr (r, hit4 DEBUG ac')
         \<and> matchapply TRIPLE DEBUG (ac'\<lparr>apply_op := d2\<rparr>) left right
             = Inr (- 1, miss4 DEBUG (ac'\<lparr>apply_op := d2\<rparr>))))
   \<and> (in_range (TRIPLE left right (appex_id xc) (int (length (table4 xc)))) (table4 xc)
       \<and> in_range (TRIPLE left right d2 (int (length (table4 xc)))) (table4 xc)
       \<and> d2 \<noteq> appex_id xc
       \<and> list_all (\<lambda>e. \<not> (a4 e = left \<and> b4 e = right \<and> c4 e = d2)) (table4 xc) \<longrightarrow>
      (\<exists>xc'. setappex TRIPLE xc left right r = Inr (r, xc')
         \<and> matchappex TRIPLE DEBUG xc' left right = Inr (r, hit4 DEBUG xc')
         \<and> matchappex TRIPLE DEBUG (xc'\<lparr>appex_id := d2\<rparr>) left right
             = Inr (- 1, miss4 DEBUG (xc'\<lparr>appex_id := d2\<rparr>))))
   \<and> (in_range (TRIPLE left right (apply_op pc) (int (length (table4 pc)))) (table4 pc)
       \<and> in_range (TRIPLE left right d2 (int (length (table4 pc)))) (table4 pc)
       \<and> d2 \<noteq> apply_op pc \<longrightarrow>
      (\<exists>pc'. setapply TRIPLE pc left right r = Inr (r, pc')
         \<and> matchapply TRIPLE DEBUG pc' left right = Inr (r, hit4 DEBUG pc')
         \<and> (reports (matchapply TRIPLE DEBUG (pc'\<lparr>apply_op := d2\<rparr>) left right) (- 1)
             \<or> (\<exists>v. reports (matchapply TRIPLE DEBUG (pc'\<lparr>apply_op := d2\<rparr>) left right) v
                  \<and> reports (matchapply TRIPLE DEBUG (pc\<lparr>apply_op := d2\<rparr>) left right) v))))
   \<and> (in_range (TRIPLE left right (appex_id yc) (int (length (table4 yc)))) (table4 yc)
       \<and> in_range (TRIPLE left right d2 (int (length (table4 yc)))) (table4 yc)
       \<and> d2 \<noteq> appex_id yc \<longrightarrow>
      (\<exists>yc'. setappex TRIPLE yc left right r = Inr (r, yc')
         \<and> matchappex TRIPLE DEBUG yc' left right = Inr (r, hit4 DEBUG yc')
         \<and> (reports (matchappex TRIPLE DEBUG (yc'\<lparr>appex_id := d2\<rparr>) left right) (- 1)
             \<or> (\<exists>v. reports (matchappex TRIPLE DEBUG (yc'\<lparr>appex_id := d2\<rparr>) left right) v
                  \<and> reports (matchappex TRIPLE DEBUG (yc\<lparr>appex_id := d2\<rparr>) left right) v))))"
proof (intro conjI impI)
  assume "in_range (PAIR n varset (int (length (table4 qc)))) (table4 qc) \<and> d2 \<noteq> quant_id qc"
  then show "\<exists>qc'. setquant PAIR qc n varset r = Inr (r, qc')
         \<and> matchquant PAIR DEBUG qc' n varset = Inr (r, hit4 DEBUG qc')
         \<and> matchquant PAIR DEBUG (qc'\<lparr>quant_id := d2\<rparr>) n varset
             = Inr (- 1, miss4 DEBUG (qc'\<lparr>quant_id := d2\<rparr>))"
    by (intro setquant_other_id) simp_all
next
  assume "0 \<le> n \<and> table3 rc \<noteq> [] \<and> d2 \<noteq> replace_id rc"
  then show "\<exists>rc'. setreplace rc n r = Inr (r, rc')
         \<and> matchreplace DEBUG rc' n = Inr (r, hit3 DEBUG rc')
         \<and> matchreplace DEBUG (rc'\<lparr>replace_id := d2\<rparr>) n
             = Inr (- 1, miss3 DEBUG (rc'\<lparr>replace_id := d2\<rparr>))"
    by (intro setreplace_other_id) simp_all
next
  assume "in_range (TRIPLE left right (apply_op ac) (int (length (table4 ac)))) (table4 ac)
       \<and> in_range (TRIPLE left right d2 (int (length (table4 ac)))) (table4 ac)
       \<and> d2 \<noteq> apply_op ac
       \<and> list_all (\<lambda>e. \<not> (a4 e = left \<and> b4 e = right \<and> c4 e = d2)) (table4 ac)"
  then show "\<exists>ac'. setapply TRIPLE ac left right r = Inr (r, ac')
         \<and> matchapply TRIPLE DEBUG ac' left right = Inr (r, hit4 DEBUG ac')
         \<and> matchapply TRIPLE DEBUG (ac'\<lparr>apply_op := d2\<rparr>) left right
             = Inr (- 1, miss4 DEBUG (ac'\<lparr>apply_op := d2\<rparr>))"
    by (intro setapply_other_op) simp_all
next
  assume "in_range (TRIPLE left right (appex_id xc) (int (length (table4 xc)))) (table4 xc)
       \<and> in_range (TRIPLE left right d2 (int (length (table4 xc)))) (table4 xc)
       \<and> d2 \<noteq> appex_id xc
       \<and> list_all (\<lambda>e. \<not> (a4 e = left \<and> b4 e = right \<and> c4 e = d2)) (table4 xc)"
  then show "\<exists>xc'. setappex TRIPLE xc left right r = Inr (r, xc')
         \<and> matchappex TRIPLE DEBUG xc' left right = Inr (r, hit4 DEBUG xc')
         \<and> matchappex TRIPLE DEBUG (xc'\<lparr>appex_id := d2\<rparr>) left right
             = Inr (- 1, miss4 DEBUG (xc'\<lparr>appex_id := d2\<rparr>))"
    by (intro setappex_other_id) simp_all
next
  assume "in_range (TRIPLE left right (apply_op pc) (int (length (table4 pc)))) (table4 pc)
       \<and> in_range (TRIPLE left right d2 (int (length (table4 pc)))) (table4 pc)
       \<and> d2 \<noteq> apply_op pc"
  then show "\<exists>pc'. setapply TRIPLE pc left right r = Inr (r, pc')
         \<and> matchapply TRIPLE DEBUG pc' left right = Inr (r, hit4 DEBUG pc')
         \<and> (reports (matchapply TRIPLE DEBUG (pc'\<lparr>apply_op := d2\<rparr>) left right) (- 1)
             \<or> (\<exists>v. reports (matchapply TRIPLE DEBUG (pc'\<lparr>apply_op := d2\<rparr>) left right) v
                  \<and> reports (matchapply TRIPLE DEBUG (pc\<lparr>apply_op := d2\<rparr>) left right) v))"
    by (intro setapply_other_op_value) simp_all
next
  assume "in_range (TRIPLE left right (appex_id yc) (int (length (table4 yc)))) (table4 yc)
       \<and> in_range (TRIPLE left right d2 (int (length (table4 yc)))) (table4 yc)
       \<and> d2 \<noteq> appex_id yc"
  then show "\<exists>yc'. setappex TRIPLE yc left right r = Inr (r, yc')
         \<and> matchappex TRIPLE DEBUG yc' left right = Inr (r, hit4 DEBUG yc')
         \<and> (reports (matchappex TRIPLE DEBUG (yc'\<lparr>appex_id := d2\<rparr>) left right) (- 1)
             \<or> (\<exists>v. reports (matchappex TRIPLE DEBUG (yc'\<lparr>appex_id := d2\<rparr>) left right) v
                  \<and> reports (matchappex TRIPLE DEBUG (yc\<lparr>appex_id := d2\<rparr>) left right) v))"
    by (intro setappex_other_id_value) simp_all
qed

theorem discriminant_isolation_witness:
  "in_range (ex_pair 6 2 (int (length (table4 ex_quant)))) (table4 ex_quant)
   \<and> 2 \<noteq> quant_id ex_quant
   \<and> (0::int) \<le> 6 \<and> table3 ex_replace \<noteq> [] \<and> 2 \<noteq> replace_id ex_replace
   \<and> in_range (ex_triple 3 5 (apply_op ex_apply) (int (length (table4 ex_apply)))) (table4 ex_apply)
   \<and> in_range (ex_triple 3 5 2 (int (length (table4 ex_apply)))) (table4 ex_apply)
   \<and> 2 \<noteq> apply_op ex_apply
   \<and> list_all (\<lambda>e. \<not> (a4 e = 3 \<and> b4 e = 5 \<and> c4 e = 2)) (table4 ex_apply)
   \<and> in_range (ex_triple 3 5 (appex_id ex_appex) (int (length (table4 ex_appex)))) (table4 ex_appex)
   \<and> in_range (ex_triple 3 5 2 (int (length (table4 ex_appex)))) (table4 ex_appex)
   \<and> 2 \<noteq> appex_id ex_appex
   \<and> list_all (\<lambda>e. \<not> (a4 e = 3 \<and> b4 e = 5 \<and> c4 e = 2)) (table4 ex_appex)
   \<and> in_range (ex_triple 3 5 (apply_op ex_apply_and) (int (length (table4 ex_apply_and))))
        (table4 ex_apply_and)
   \<and> in_range (ex_triple 3 5 2 (int (length (table4 ex_apply_and)))) (table4 ex_apply_and)
   \<and> 2 \<noteq> apply_op ex_apply_and
   \<and> (\<exists>qc'. setquant ex_pair ex_quant 6 2 8 = Inr (8, qc')
         \<and> matchquant ex_pair True qc' 6 2 = Inr (8, hit4 True qc')
         \<and> matchquant ex_pair True (qc'\<lparr>quant_id := 2\<rparr>) 6 2
             = Inr (- 1, miss4 True (qc'\<lparr>quant_id := 2\<rparr>)))
   \<and> (\<exists>rc'. setreplace ex_replace 6 8 = Inr (8, rc')
         \<and> matchreplace True rc' 6 = Inr (8, hit3 True rc')
         \<and> matchreplace True (rc'\<lparr>replace_id := 2\<rparr>) 6
             = Inr (- 1, miss3 True (rc'\<lparr>replace_id := 2\<rparr>)))
   \<and> (\<exists>ac'. setapply ex_triple ex_apply 3 5 8 = Inr (8, ac')
         \<and> matchapply ex_triple True ac' 3 5 = Inr (8, hit4 True ac')
         \<and> matchapply ex_triple True (ac'\<lparr>apply_op := 2\<rparr>) 3 5
             = Inr (- 1, miss4 True (ac'\<lparr>apply_op := 2\<rparr>)))
   \<and> (\<exists>xc'. setappex ex_triple ex_appex 3 5 8 = Inr (8, xc')
         \<and> matchappex ex_triple True xc' 3 5 = Inr (8, hit4 True xc')
         \<and> matchappex ex_triple True (xc'\<lparr>appex_id := 2\<rparr>) 3 5
             = Inr (- 1, miss4 True (xc'\<lparr>appex_id := 2\<rparr>)))
   \<and> (\<exists>pc'. setapply ex_triple ex_apply_and 3 5 8 = Inr (8, pc')
         \<and> matchapply ex_triple True pc' 3 5 = Inr (8, hit4 True pc')
         \<and> (reports (matchapply ex_triple True (pc'\<lparr>apply_op := 2\<rparr>) 3 5) (- 1)
             \<or> (\<exists>v. reports (matchapply ex_triple True (pc'\<lparr>apply_op := 2\<rparr>) 3 5) v
                  \<and> reports (matchapply ex_triple True (ex_apply_and\<lparr>apply_op := 2\<rparr>) 3 5) v)))
   \<and> (\<exists>yc'. setappex ex_triple ex_appex 3 5 8 = Inr (8, yc')
         \<and> matchappex ex_triple True yc' 3 5 = Inr (8, hit4 True yc')
         \<and> (reports (matchappex ex_triple True (yc'\<lparr>appex_id := 2\<rparr>) 3 5) (- 1)
             \<or> (\<exists>v. reports (matchappex ex_triple True (yc'\<lparr>appex_id := 2\<rparr>) 3 5) v
                  \<and> reports (matchappex ex_triple True (ex_appex\<lparr>appex_id := 2\<rparr>) 3 5) v)))"
proof -
  have h: "in_range (ex_pair 6 2 (int (length (table4 ex_quant)))) (table4 ex_quant)"
    "2 \<noteq> quant_id ex_quant"
    "(0::int) \<le> 6" "table3 ex_replace \<noteq> []" "2 \<noteq> replace_id ex_replace"
    "in_range (ex_triple 3 5 (apply_op ex_apply) (int (length (table4 ex_apply)))) (table4 ex_apply)"
    "in_range (ex_triple 3 5 2 (int (length (table4 ex_apply)))) (table4 ex_apply)"
    "2 \<noteq> apply_op ex_apply"
    "list_all (\<lambda>e. \<not> (a4 e = 3 \<and> b4 e = 5 \<and> c4 e = 2)) (table4 ex_apply)"
    "in_range (ex_triple 3 5 (appex_id ex_appex) (int (length (table4 ex_appex)))) (table4 ex_appex)"
    "in_range (ex_triple 3 5 2 (int (length (table4 ex_appex)))) (table4 ex_appex)"
    "2 \<noteq> appex_id ex_appex"
    "list_all (\<lambda>e. \<not> (a4 e = 3 \<and> b4 e = 5 \<and> c4 e = 2)) (table4 ex_appex)"
    "in_range (ex_triple 3 5 (apply_op ex_apply_and) (int (length (table4 ex_apply_and))))
        (table4 ex_apply_and)"
    "in_range (ex_triple 3 5 2 (int (length (table4 ex_apply_and)))) (table4 ex_apply_and)"
    "2 \<noteq> apply_op ex_apply_and"
    by (simp_all add: in_range_def ex_defs ex_apply_and_def list_all_iff)
  with discriminant_isolation [where PAIR = ex_pair and n = 6 and varset = 2 and qc = ex_quant
      and ?d2.0 = 2 and r = 8 and DEBUG = True and rc = ex_replace and TRIPLE = ex_triple
      and left = 3 and right = 5 and ac = ex_apply and xc = ex_appex and pc = ex_apply_and
      and yc = ex_appex]
  show ?thesis by blast
qed

subsection \<open>Invalidation\<close>

lemma table4_reset4: "table4 (reset4 bc) = map (\<lambda>e. e\<lparr>a4 := - 1\<rparr>) (table4 bc)"
  by (simp add: reset4_def)

lemma table3_reset3: "table3 (reset3 bc) = map (\<lambda>e. e\<lparr>a3 := - 1\<rparr>) (table3 bc)"
  by (simp add: reset3_def)

lemma reset4_invalid: "e \<in> set (table4 (reset4 bc)) \<Longrightarrow> a4 e = - 1"
  by (auto simp: table4_reset4)

lemma reset3_invalid: "e \<in> set (table3 (reset3 bc)) \<Longrightarrow> a3 e = - 1"
  by (auto simp: table3_reset3)

lemma matchapply_invalid:
  assumes "\<forall>e\<in>set (table4 bc). a4 e = - 1" and "left \<noteq> - 1"
    and "in_range (TRIPLE left right (apply_op bc) (int (length (table4 bc)))) (table4 bc)"
  shows "matchapply TRIPLE DEBUG bc left right = Inr (- 1, miss4 DEBUG bc)"
  using assms(1,2) nth_in_range [OF assms(3)]
  by (auto simp: matchapply_def slot_get_in_range [OF assms(3)])

lemma matchite_invalid:
  assumes "\<forall>e\<in>set (table4 bc). a4 e = - 1" and "f \<noteq> - 1"
    and "in_range (TRIPLE f g h (int (length (table4 bc)))) (table4 bc)"
  shows "matchite TRIPLE DEBUG bc f g h = Inr (- 1, miss4 DEBUG bc)"
  using assms(1,2) nth_in_range [OF assms(3)]
  by (auto simp: matchite_def slot_get_in_range [OF assms(3)])

lemma matchquant_invalid:
  assumes "\<forall>e\<in>set (table4 bc). a4 e = - 1" and "n \<noteq> - 1"
    and "in_range (PAIR n varset (int (length (table4 bc)))) (table4 bc)"
  shows "matchquant PAIR DEBUG bc n varset = Inr (- 1, miss4 DEBUG bc)"
  using assms(1,2) nth_in_range [OF assms(3)]
  by (auto simp: matchquant_def slot_get_in_range [OF assms(3)])

lemma matchappex_invalid:
  assumes "\<forall>e\<in>set (table4 bc). a4 e = - 1" and "left \<noteq> - 1"
    and "in_range (TRIPLE left right (appex_id bc) (int (length (table4 bc)))) (table4 bc)"
  shows "matchappex TRIPLE DEBUG bc left right = Inr (- 1, miss4 DEBUG bc)"
  using assms(1,2) nth_in_range [OF assms(3)]
  by (auto simp: matchappex_def slot_get_in_range [OF assms(3)])

lemma matchnot_invalid:
  assumes "\<forall>e\<in>set (table4 bc). a4 e = - 1" and "0 \<le> n" and "table4 bc \<noteq> []"
  shows "matchnot op_not DEBUG bc n = Inr (- 1, miss4 DEBUG bc)"
  using assms(1,2) nth_in_range [OF rem_len_in_range [OF assms(2,3)]]
  by (auto simp: matchnot_def rem_len_nonneg [OF assms(2,3)]
      slot_get_in_range [OF rem_len_in_range [OF assms(2,3)]])

lemma matchreplace_invalid:
  assumes "\<forall>e\<in>set (table3 bc). a3 e = - 1" and "0 \<le> n" and "table3 bc \<noteq> []"
  shows "matchreplace DEBUG bc n = Inr (- 1, miss3 DEBUG bc)"
  using assms(1,2) nth_in_range [OF rem_len_in_range [OF assms(2,3)]]
  by (auto simp: matchreplace_def rem_len_nonneg [OF assms(2,3)]
      slot_get_in_range [OF rem_len_in_range [OF assms(2,3)]])

text \<open>
  Claim C3.  \<open>reset\<close> keeps the length of the table, and after it every lookup misses,
  whatever the discriminant is set to: \<open>matchapply\<close>, \<open>matchite\<close>, \<open>matchquant\<close> and
  \<open>matchappex\<close> for a key whose first node id is not the sentinel \<open>-1\<close> and whose
  hash is an index of the table, \<open>matchnot\<close> and \<open>matchreplace\<close> for a node id that
  is not negative, on a table that is not empty.
\<close>

theorem reset_completeness:
  "length (table4 (reset4 bc4)) = length (table4 bc4)
   \<and> length (table3 (reset3 bc3)) = length (table3 bc3)
   \<and> (left \<noteq> - 1 \<and> in_range (TRIPLE left right d (int (length (table4 ac)))) (table4 ac) \<longrightarrow>
        matchapply TRIPLE DEBUG ((reset4 ac)\<lparr>apply_op := d\<rparr>) left right
          = Inr (- 1, miss4 DEBUG ((reset4 ac)\<lparr>apply_op := d\<rparr>)))
   \<and> (0 \<le> n \<and> table4 ac \<noteq> [] \<longrightarrow>
        matchnot op_not DEBUG (reset4 ac) n = Inr (- 1, miss4 DEBUG (reset4 ac)))
   \<and> (f \<noteq> - 1 \<and> in_range (TRIPLE f g h (int (length (table4 ic)))) (table4 ic) \<longrightarrow>
        matchite TRIPLE DEBUG (reset4 ic) f g h = Inr (- 1, miss4 DEBUG (reset4 ic)))
   \<and> (n \<noteq> - 1 \<and> in_range (PAIR n varset (int (length (table4 qc)))) (table4 qc) \<longrightarrow>
        matchquant PAIR DEBUG ((reset4 qc)\<lparr>quant_id := d\<rparr>) n varset
          = Inr (- 1, miss4 DEBUG ((reset4 qc)\<lparr>quant_id := d\<rparr>)))
   \<and> (left \<noteq> - 1 \<and> in_range (TRIPLE left right d (int (length (table4 xc)))) (table4 xc) \<longrightarrow>
        matchappex TRIPLE DEBUG ((reset4 xc)\<lparr>appex_id := d\<rparr>) left right
          = Inr (- 1, miss4 DEBUG ((reset4 xc)\<lparr>appex_id := d\<rparr>)))
   \<and> (0 \<le> n \<and> table3 rc \<noteq> [] \<longrightarrow>
        matchreplace DEBUG ((reset3 rc)\<lparr>replace_id := d\<rparr>) n
          = Inr (- 1, miss3 DEBUG ((reset3 rc)\<lparr>replace_id := d\<rparr>)))"
proof (intro conjI impI)
  show "length (table4 (reset4 bc4)) = length (table4 bc4)"
    by (simp add: table4_reset4)
  show "length (table3 (reset3 bc3)) = length (table3 bc3)"
    by (simp add: table3_reset3)
next
  assume "left \<noteq> - 1 \<and> in_range (TRIPLE left right d (int (length (table4 ac)))) (table4 ac)"
  then show "matchapply TRIPLE DEBUG ((reset4 ac)\<lparr>apply_op := d\<rparr>) left right
      = Inr (- 1, miss4 DEBUG ((reset4 ac)\<lparr>apply_op := d\<rparr>))"
    by (intro matchapply_invalid) (auto simp: table4_reset4 in_range_def)
next
  assume "0 \<le> n \<and> table4 ac \<noteq> []"
  then show "matchnot op_not DEBUG (reset4 ac) n = Inr (- 1, miss4 DEBUG (reset4 ac))"
    by (intro matchnot_invalid) (auto simp: table4_reset4)
next
  assume "f \<noteq> - 1 \<and> in_range (TRIPLE f g h (int (length (table4 ic)))) (table4 ic)"
  then show "matchite TRIPLE DEBUG (reset4 ic) f g h = Inr (- 1, miss4 DEBUG (reset4 ic))"
    by (intro matchite_invalid) (auto simp: table4_reset4 in_range_def)
next
  assume "n \<noteq> - 1 \<and> in_range (PAIR n varset (int (length (table4 qc)))) (table4 qc)"
  then show "matchquant PAIR DEBUG ((reset4 qc)\<lparr>quant_id := d\<rparr>) n varset
      = Inr (- 1, miss4 DEBUG ((reset4 qc)\<lparr>quant_id := d\<rparr>))"
    by (intro matchquant_invalid) (auto simp: table4_reset4 in_range_def)
next
  assume "left \<noteq> - 1 \<and> in_range (TRIPLE left right d (int (length (table4 xc)))) (table4 xc)"
  then show "matchappex TRIPLE DEBUG ((reset4 xc)\<lparr>appex_id := d\<rparr>) left right
      = Inr (- 1, miss4 DEBUG ((reset4 xc)\<lparr>appex_id := d\<rparr>))"
    by (intro matchappex_invalid) (auto simp: table4_reset4 in_range_def)
next
  assume "0 \<le> n \<and> table3 rc \<noteq> []"
  then show "matchreplace DEBUG ((reset3 rc)\<lparr>replace_id := d\<rparr>) n
      = Inr (- 1, miss3 DEBUG ((reset3 rc)\<lparr>replace_id := d\<rparr>))"
    by (intro matchreplace_invalid) (auto simp: table3_reset3)
qed


theorem reset_completeness_witness:
  "3 \<noteq> (- 1::int)
   \<and> in_range (ex_triple 3 5 2 (int (length (table4 ex_apply_and)))) (table4 ex_apply_and)
   \<and> (0::int) \<le> 6 \<and> table4 ex_apply_and \<noteq> []
   \<and> 2 \<noteq> (- 1::int) \<and> in_range (ex_triple 2 3 4 (int (length (table4 ex_ite)))) (table4 ex_ite)
   \<and> 6 \<noteq> (- 1::int) \<and> in_range (ex_pair 6 2 (int (length (table4 ex_quant)))) (table4 ex_quant)
   \<and> in_range (ex_triple 3 5 2 (int (length (table4 ex_appex)))) (table4 ex_appex)
   \<and> table3 ex_replace \<noteq> []
   \<and> length (table4 (reset4 ex_apply_and)) = length (table4 ex_apply_and)
   \<and> length (table3 (reset3 ex_replace)) = length (table3 ex_replace)
   \<and> matchapply ex_triple True ((reset4 ex_apply_and)\<lparr>apply_op := 2\<rparr>) 3 5
        = Inr (- 1, miss4 True ((reset4 ex_apply_and)\<lparr>apply_op := 2\<rparr>))
   \<and> matchnot 10 True (reset4 ex_apply_and) 6 = Inr (- 1, miss4 True (reset4 ex_apply_and))
   \<and> matchite ex_triple True (reset4 ex_ite) 2 3 4 = Inr (- 1, miss4 True (reset4 ex_ite))
   \<and> matchquant ex_pair True ((reset4 ex_quant)\<lparr>quant_id := 2\<rparr>) 6 2
        = Inr (- 1, miss4 True ((reset4 ex_quant)\<lparr>quant_id := 2\<rparr>))
   \<and> matchappex ex_triple True ((reset4 ex_appex)\<lparr>appex_id := 2\<rparr>) 3 5
        = Inr (- 1, miss4 True ((reset4 ex_appex)\<lparr>appex_id := 2\<rparr>))
   \<and> matchreplace True ((reset3 ex_replace)\<lparr>replace_id := 2\<rparr>) 6
        = Inr (- 1, miss3 True ((reset3 ex_replace)\<lparr>replace_id := 2\<rparr>))"
proof -
  have h: "3 \<noteq> (- 1::int)"
    "in_range (ex_triple 3 5 2 (int (length (table4 ex_apply_and)))) (table4 ex_apply_and)"
    "(0::int) \<le> 6" "table4 ex_apply_and \<noteq> []"
    "2 \<noteq> (- 1::int)" "in_range (ex_triple 2 3 4 (int (length (table4 ex_ite)))) (table4 ex_ite)"
    "6 \<noteq> (- 1::int)" "in_range (ex_pair 6 2 (int (length (table4 ex_quant)))) (table4 ex_quant)"
    "in_range (ex_triple 3 5 2 (int (length (table4 ex_appex)))) (table4 ex_appex)"
    "table3 ex_replace \<noteq> []"
    by (simp_all add: in_range_def ex_defs ex_apply_and_def)
  with reset_completeness [where ?bc4.0 = ex_apply_and and ?bc3.0 = ex_replace
      and left = 3 and right = 5 and d = 2 and TRIPLE = ex_triple and ac = ex_apply_and
      and DEBUG = True and n = 6 and op_not = 10 and f = 2 and g = 3 and h = 4
      and ic = ex_ite and PAIR = ex_pair and varset = 2 and qc = ex_quant
      and xc = ex_appex and rc = ex_replace]
  show ?thesis by blast
qed

lemma prime_from_prime: "is_prime (prime_from n)"
proof (induction n rule: prime_from.induct)
  case (1 n)
  then show ?case by (subst prime_from.simps) simp
qed

lemma prime_from_ge: "n \<le> prime_from n"
proof (induction n rule: prime_from.induct)
  case (1 n)
  then show ?case by (subst prime_from.simps) (auto simp: Suc_leD)
qed

lemma prime_from_least: "is_prime q \<Longrightarrow> n \<le> q \<Longrightarrow> prime_from n \<le> q"
proof (induction n rule: prime_from.induct)
  case (1 n)
  show ?case
  proof (cases "is_prime n")
    case True
    with "1.prems" show ?thesis by (subst prime_from.simps) simp
  next
    case False
    with "1.prems" have "Suc n \<le> q" by (cases "n = q") auto
    with 1 False show ?thesis by (subst prime_from.simps) simp
  qed
qed

lemma bdd_prime_gte_smallest:
  "is_prime (nat (bdd_prime_gte k)) \<and> 2 \<le> bdd_prime_gte k \<and> k \<le> bdd_prime_gte k
   \<and> (\<forall>q. is_prime q \<and> k \<le> int q \<longrightarrow> bdd_prime_gte k \<le> int q)"
proof -
  have "2 \<le> prime_from (nat k)"
    using prime_from_prime [of "nat k"] by (simp add: is_prime_iff)
  moreover have "k \<le> int (prime_from (nat k))"
    using prime_from_ge [of "nat k"] by linarith
  moreover have "prime_from (nat k) \<le> q" if "is_prime q" "k \<le> int q" for q
    using that by (intro prime_from_least) auto
  ultimately show ?thesis
    by (auto simp: bdd_prime_gte_def prime_from_prime)
qed

lemma make_slice_prime:
  "make_slice z (bdd_prime_gte k) = Inr (replicate (nat (bdd_prime_gte k)) z)"
  using bdd_prime_gte_smallest [of k] by (simp add: make_slice_def)

lemma resize4_pos:
  "0 < ratio4 bc \<Longrightarrow> resize4 bc sz
     = Inr (reset4 (bc\<lparr>table4 := replicate (nat (bdd_prime_gte (go_quo sz (ratio4 bc)))) zero4\<rparr>))"
  by (simp add: resize4_def make_slice_prime)

lemma resize4_nonpos: "ratio4 bc \<le> 0 \<Longrightarrow> resize4 bc sz = Inr (reset4 bc)"
  by (simp add: resize4_def)

lemma resize3_pos:
  "0 < ratio3 bc \<Longrightarrow> resize3 bc sz
     = Inr (reset3 (bc\<lparr>table3 := replicate (nat (bdd_prime_gte (go_quo sz (ratio3 bc)))) zero3\<rparr>))"
  by (simp add: resize3_def make_slice_prime)

lemma resize3_nonpos: "ratio3 bc \<le> 0 \<Longrightarrow> resize3 bc sz = Inr (reset3 bc)"
  by (simp add: resize3_def)

lemma resize4_invalid: "resize4 bc sz = Inr bc' \<Longrightarrow> e \<in> set (table4 bc') \<Longrightarrow> a4 e = - 1"
  by (cases "0 < ratio4 bc") (auto simp: resize4_pos resize4_nonpos table4_reset4)

lemma resize3_invalid: "resize3 bc sz = Inr bc' \<Longrightarrow> e \<in> set (table3 bc') \<Longrightarrow> a3 e = - 1"
  by (cases "0 < ratio3 bc") (auto simp: resize3_pos resize3_nonpos table3_reset3)

lemma go_quo_nonneg: "0 \<le> x \<Longrightarrow> 0 < y \<Longrightarrow> go_quo x y = x div y"
  by (cases "x = 0") (simp_all add: go_quo_def)


text \<open>
  \<open>init\<close> always allocates: the capacity is a prime, so at least 2, and every slot is
  invalid.  The example caches are what \<open>init\<close> with size 7 and ratio 0 returns.
\<close>

lemma init4_capacity:
  "\<exists>bc'. init4 bc sz ratio = Inr bc' \<and> 2 \<le> length (table4 bc') \<and> ratio4 bc' = ratio
     \<and> list_all (\<lambda>e. a4 e = - 1) (table4 bc')"
proof -
  have "2 \<le> nat (bdd_prime_gte sz)"
    using bdd_prime_gte_smallest [of sz] by linarith
  then show ?thesis
    by (simp add: init4_def make_slice_prime reset4_def list_all_iff)
qed

lemma init3_capacity:
  "\<exists>bc'. init3 bc sz ratio = Inr bc' \<and> 2 \<le> length (table3 bc') \<and> ratio3 bc' = ratio
     \<and> list_all (\<lambda>e. a3 e = - 1) (table3 bc')"
proof -
  have "2 \<le> nat (bdd_prime_gte sz)"
    using bdd_prime_gte_smallest [of sz] by linarith
  then show ?thesis
    by (simp add: init3_def make_slice_prime reset3_def list_all_iff)
qed

lemma bdd_prime_gte_7: "bdd_prime_gte 7 = 7"
  by code_simp

lemma ex_apply_init:
  "init4 \<lparr>ratio4 = 0, opHit4 = 0, opMiss4 = 0, table4 = [], apply_op = 0\<rparr> 7 0 = Inr ex_apply"
  by (simp add: init4_def bdd_prime_gte_7 make_slice_def reset4_def zero4_def ex_triple_def
      ex_table4_def ex_apply_def)

lemma ex_replace_init:
  "init3 \<lparr>ratio3 = 0, opHit3 = 0, opMiss3 = 0, table3 = [], replace_id = 0\<rparr> 7 0
     = Inr ex_replace"
  by (simp add: init3_def bdd_prime_gte_7 make_slice_def reset3_def zero3_def ex_table3_def
      ex_replace_def)

lemma is_prime_dvd: "is_prime p \<longleftrightarrow> 2 \<le> p \<and> (\<forall>d. d dvd p \<longrightarrow> d = 1 \<or> d = p)"
proof
  assume p: "is_prime p"
  then have p2: "2 \<le> p" by (simp add: is_prime_iff)
  have "d = 1 \<or> d = p" if "d dvd p" for d
  proof -
    from that p2 have "d \<noteq> 0" by (cases "d = 0") simp_all
    moreover from that p2 have "d \<le> p" by (intro dvd_imp_le) simp_all
    ultimately have "d = 1 \<or> d = p \<or> (2 \<le> d \<and> d < p)" by linarith
    with p that show ?thesis by (auto simp: is_prime_iff)
  qed
  with p2 show "2 \<le> p \<and> (\<forall>d. d dvd p \<longrightarrow> d = 1 \<or> d = p)" by blast
next
  assume "2 \<le> p \<and> (\<forall>d. d dvd p \<longrightarrow> d = 1 \<or> d = p)"
  then show "is_prime p" by (fastforce simp: is_prime_iff)
qed

lemma go_quo_pos:
  "0 < y \<Longrightarrow> go_quo x y = (if 0 \<le> x then x div y else - ((- x) div y))"
  by (cases "x = 0") (auto simp: go_quo_def)

lemma reset4_replicate:
  "reset4 (bc\<lparr>table4 := replicate p zero4\<rparr>)
     = bc\<lparr>table4 := replicate p \<lparr>res4 = 0, a4 = - 1, b4 = 0, c4 = 0\<rparr>\<rparr>"
  by (simp add: reset4_def zero4_def)

lemma reset3_replicate:
  "reset3 (bc\<lparr>table3 := replicate p zero3\<rparr>)
     = bc\<lparr>table3 := replicate p \<lparr>res3 = 0, a3 = - 1, c3 = 0\<rparr>\<rparr>"
  by (simp add: reset3_def zero3_def)

lemma smallest_prime_capacity:
  assumes "0 < y"
    and k_def: "k = (if 0 \<le> x then x div y else - ((- x) div y))"
    and p_def: "p = nat (bdd_prime_gte (go_quo x y))"
  shows "2 \<le> p \<and> (\<forall>d. d dvd p \<longrightarrow> d = 1 \<or> d = p) \<and> k \<le> int p
    \<and> (\<forall>q. 2 \<le> q \<and> (\<forall>d. d dvd q \<longrightarrow> d = 1 \<or> d = q) \<and> k \<le> int q \<longrightarrow> p \<le> q)"
proof -
  have g: "go_quo x y = k" using assms(1) by (simp add: go_quo_pos k_def)
  note s = bdd_prime_gte_smallest [of k]
  from s have "is_prime p" by (simp add: p_def g)
  then have "2 \<le> p" "\<forall>d. d dvd p \<longrightarrow> d = 1 \<or> d = p" by (simp_all add: is_prime_dvd)
  moreover from s have "k \<le> int p" by (simp add: p_def g)
  moreover have "p \<le> q" if "2 \<le> q \<and> (\<forall>d. d dvd q \<longrightarrow> d = 1 \<or> d = q) \<and> k \<le> int q" for q
  proof -
    from that have "is_prime q" by (simp add: is_prime_dvd)
    with that s have "bdd_prime_gte k \<le> int q" by blast
    then show ?thesis by (simp add: p_def g)
  qed
  ultimately show ?thesis by blast
qed

text \<open>
  Claim C4.  \<open>resize\<close> on a table of positive ratio replaces the table by one of \<open>p\<close>
  slots, each the zero record with first key \<open>-1\<close>, where \<open>p\<close> is the smallest prime not
  below the quotient of the new base size by the ratio (the integer quotient, truncated
  towards zero as Go's \<open>/\<close> does); the other fields of the cache stay.  On a table of
  ratio 0 it only sets the first key of every slot to \<open>-1\<close>: the capacity stays.  After
  a \<open>resize\<close> every lookup misses (for a key whose first node id is not the sentinel,
  at an index of the table).
\<close>

theorem resize_invalidation:
  "(0 < ratio4 bc4 \<longrightarrow>
      (\<exists>p. resize4 bc4 sz
             = Inr (bc4\<lparr>table4 := replicate p \<lparr>res4 = 0, a4 = - 1, b4 = 0, c4 = 0\<rparr>\<rparr>)
         \<and> 2 \<le> p \<and> (\<forall>d. d dvd p \<longrightarrow> d = 1 \<or> d = p)
         \<and> (if 0 \<le> sz then sz div ratio4 bc4 else - ((- sz) div ratio4 bc4)) \<le> int p
         \<and> (\<forall>q. 2 \<le> q \<and> (\<forall>d. d dvd q \<longrightarrow> d = 1 \<or> d = q)
                \<and> (if 0 \<le> sz then sz div ratio4 bc4 else - ((- sz) div ratio4 bc4)) \<le> int q
              \<longrightarrow> p \<le> q)))
   \<and> (ratio4 fc4 = 0 \<longrightarrow>
      resize4 fc4 sz = Inr (fc4\<lparr>table4 := map (\<lambda>e. e\<lparr>a4 := - 1\<rparr>) (table4 fc4)\<rparr>))
   \<and> (0 < ratio3 bc3 \<longrightarrow>
      (\<exists>p. resize3 bc3 sz
             = Inr (bc3\<lparr>table3 := replicate p \<lparr>res3 = 0, a3 = - 1, c3 = 0\<rparr>\<rparr>)
         \<and> 2 \<le> p \<and> (\<forall>d. d dvd p \<longrightarrow> d = 1 \<or> d = p)
         \<and> (if 0 \<le> sz then sz div ratio3 bc3 else - ((- sz) div ratio3 bc3)) \<le> int p
         \<and> (\<forall>q. 2 \<le> q \<and> (\<forall>d. d dvd q \<longrightarrow> d = 1 \<or> d = q)
                \<and> (if 0 \<le> sz then sz div ratio3 bc3 else - ((- sz) div ratio3 bc3)) \<le> int q
              \<longrightarrow> p \<le> q)))
   \<and> (ratio3 fc3 = 0 \<longrightarrow>
      resize3 fc3 sz = Inr (fc3\<lparr>table3 := map (\<lambda>e. e\<lparr>a3 := - 1\<rparr>) (table3 fc3)\<rparr>))
   \<and> (resize4 ac sz = Inr ac' \<and> left \<noteq> - 1
       \<and> in_range (TRIPLE left right (apply_op ac') (int (length (table4 ac')))) (table4 ac') \<longrightarrow>
        matchapply TRIPLE DEBUG ac' left right = Inr (- 1, miss4 DEBUG ac'))
   \<and> (resize4 ac sz = Inr ac' \<and> 0 \<le> n \<and> table4 ac' \<noteq> [] \<longrightarrow>
        matchnot op_not DEBUG ac' n = Inr (- 1, miss4 DEBUG ac'))
   \<and> (resize4 ic sz = Inr ic' \<and> f \<noteq> - 1
       \<and> in_range (TRIPLE f g h (int (length (table4 ic')))) (table4 ic') \<longrightarrow>
        matchite TRIPLE DEBUG ic' f g h = Inr (- 1, miss4 DEBUG ic'))
   \<and> (resize4 qc sz = Inr qc' \<and> n \<noteq> - 1
       \<and> in_range (PAIR n varset (int (length (table4 qc')))) (table4 qc') \<longrightarrow>
        matchquant PAIR DEBUG qc' n varset = Inr (- 1, miss4 DEBUG qc'))
   \<and> (resize4 xc sz = Inr xc' \<and> left \<noteq> - 1
       \<and> in_range (TRIPLE left right (appex_id xc') (int (length (table4 xc')))) (table4 xc') \<longrightarrow>
        matchappex TRIPLE DEBUG xc' left right = Inr (- 1, miss4 DEBUG xc'))
   \<and> (resize3 rc sz = Inr rc' \<and> 0 \<le> n \<and> table3 rc' \<noteq> [] \<longrightarrow>
        matchreplace DEBUG rc' n = Inr (- 1, miss3 DEBUG rc'))"
proof -
  have p4: "\<exists>p. resize4 bc4 sz
             = Inr (bc4\<lparr>table4 := replicate p \<lparr>res4 = 0, a4 = - 1, b4 = 0, c4 = 0\<rparr>\<rparr>)
         \<and> 2 \<le> p \<and> (\<forall>d. d dvd p \<longrightarrow> d = 1 \<or> d = p)
         \<and> (if 0 \<le> sz then sz div ratio4 bc4 else - ((- sz) div ratio4 bc4)) \<le> int p
         \<and> (\<forall>q. 2 \<le> q \<and> (\<forall>d. d dvd q \<longrightarrow> d = 1 \<or> d = q)
                \<and> (if 0 \<le> sz then sz div ratio4 bc4 else - ((- sz) div ratio4 bc4)) \<le> int q
              \<longrightarrow> p \<le> q)" if "0 < ratio4 bc4"
    using smallest_prime_capacity [OF that refl refl, of sz] resize4_pos [OF that, of sz]
    by (intro exI [of _ "nat (bdd_prime_gte (go_quo sz (ratio4 bc4)))"])
      (simp only: reset4_replicate, blast)
  have p3: "\<exists>p. resize3 bc3 sz
             = Inr (bc3\<lparr>table3 := replicate p \<lparr>res3 = 0, a3 = - 1, c3 = 0\<rparr>\<rparr>)
         \<and> 2 \<le> p \<and> (\<forall>d. d dvd p \<longrightarrow> d = 1 \<or> d = p)
         \<and> (if 0 \<le> sz then sz div ratio3 bc3 else - ((- sz) div ratio3 bc3)) \<le> int p
         \<and> (\<forall>q. 2 \<le> q \<and> (\<forall>d. d dvd q \<longrightarrow> d = 1 \<or> d = q)
                \<and> (if 0 \<le> sz then sz div ratio3 bc3 else - ((- sz) div ratio3 bc3)) \<le> int q
              \<longrightarrow> p \<le> q)" if "0 < ratio3 bc3"
    using smallest_prime_capacity [OF that refl refl, of sz] resize3_pos [OF that, of sz]
    by (intro exI [of _ "nat (bdd_prime_gte (go_quo sz (ratio3 bc3)))"])
      (simp only: reset3_replicate, blast)
  have z4: "resize4 fc4 sz = Inr (fc4\<lparr>table4 := map (\<lambda>e. e\<lparr>a4 := - 1\<rparr>) (table4 fc4)\<rparr>)"
    if "ratio4 fc4 = 0"
    using that by (simp add: resize4_nonpos reset4_def)
  have z3: "resize3 fc3 sz = Inr (fc3\<lparr>table3 := map (\<lambda>e. e\<lparr>a3 := - 1\<rparr>) (table3 fc3)\<rparr>)"
    if "ratio3 fc3 = 0"
    using that by (simp add: resize3_nonpos reset3_def)
  show ?thesis
  proof (intro conjI impI)
    assume "resize4 ac sz = Inr ac' \<and> left \<noteq> - 1
       \<and> in_range (TRIPLE left right (apply_op ac') (int (length (table4 ac')))) (table4 ac')"
    then show "matchapply TRIPLE DEBUG ac' left right = Inr (- 1, miss4 DEBUG ac')"
      by (intro matchapply_invalid) (auto dest: resize4_invalid)
  next
    assume "resize4 ac sz = Inr ac' \<and> 0 \<le> n \<and> table4 ac' \<noteq> []"
    then show "matchnot op_not DEBUG ac' n = Inr (- 1, miss4 DEBUG ac')"
      by (intro matchnot_invalid) (auto dest: resize4_invalid)
  next
    assume "resize4 ic sz = Inr ic' \<and> f \<noteq> - 1
       \<and> in_range (TRIPLE f g h (int (length (table4 ic')))) (table4 ic')"
    then show "matchite TRIPLE DEBUG ic' f g h = Inr (- 1, miss4 DEBUG ic')"
      by (intro matchite_invalid) (auto dest: resize4_invalid)
  next
    assume "resize4 qc sz = Inr qc' \<and> n \<noteq> - 1
       \<and> in_range (PAIR n varset (int (length (table4 qc')))) (table4 qc')"
    then show "matchquant PAIR DEBUG qc' n varset = Inr (- 1, miss4 DEBUG qc')"
      by (intro matchquant_invalid) (auto dest: resize4_invalid)
  next
    assume "resize4 xc sz = Inr xc' \<and> left \<noteq> - 1
       \<and> in_range (TRIPLE left right (appex_id xc') (int (length (table4 xc')))) (table4 xc')"
    then show "matchappex TRIPLE DEBUG xc' left right = Inr (- 1, miss4 DEBUG xc')"
      by (intro matchappex_invalid) (auto dest: resize4_invalid)
  next
    assume "resize3 rc sz = Inr rc' \<and> 0 \<le> n \<and> table3 rc' \<noteq> []"
    then show "matchreplace DEBUG rc' n = Inr (- 1, miss3 DEBUG rc')"
      by (intro matchreplace_invalid) (auto dest: resize3_invalid)
  qed (use p4 p3 z4 z3 in blast)+
qed

lemma is_prime_7: "is_prime 7"
  by code_simp

theorem resize_invalidation_witness:
  "0 < ratio4 (ex_apply_and\<lparr>ratio4 := 2\<rparr>) \<and> ratio4 ex_apply_and = 0
   \<and> 0 < ratio3 (ex_replace\<lparr>ratio3 := 2\<rparr>) \<and> ratio3 ex_replace = 0
   \<and> resize4 ex_apply_and 15 = Inr (reset4 ex_apply_and) \<and> 3 \<noteq> (- 1::int)
   \<and> in_range (ex_triple 3 5 (apply_op (reset4 ex_apply_and))
         (int (length (table4 (reset4 ex_apply_and))))) (table4 (reset4 ex_apply_and))
   \<and> (0::int) \<le> 6 \<and> table4 (reset4 ex_apply_and) \<noteq> []
   \<and> resize4 ex_ite 15 = Inr (reset4 ex_ite) \<and> 2 \<noteq> (- 1::int)
   \<and> in_range (ex_triple 2 3 4 (int (length (table4 (reset4 ex_ite))))) (table4 (reset4 ex_ite))
   \<and> resize4 ex_quant 15 = Inr (reset4 ex_quant) \<and> 6 \<noteq> (- 1::int)
   \<and> in_range (ex_pair 6 2 (int (length (table4 (reset4 ex_quant))))) (table4 (reset4 ex_quant))
   \<and> resize4 ex_appex 15 = Inr (reset4 ex_appex)
   \<and> in_range (ex_triple 3 5 (appex_id (reset4 ex_appex))
         (int (length (table4 (reset4 ex_appex))))) (table4 (reset4 ex_appex))
   \<and> resize3 ex_replace 15 = Inr (reset3 ex_replace) \<and> table3 (reset3 ex_replace) \<noteq> []
   \<and> resize4 (ex_apply_and\<lparr>ratio4 := 2\<rparr>) 15
        = Inr (ex_apply_and\<lparr>ratio4 := 2,
                 table4 := replicate 7 \<lparr>res4 = 0, a4 = - 1, b4 = 0, c4 = 0\<rparr>\<rparr>)
   \<and> resize4 ex_apply_and 15
        = Inr (ex_apply_and\<lparr>table4 := map (\<lambda>e. e\<lparr>a4 := - 1\<rparr>) (table4 ex_apply_and)\<rparr>)
   \<and> resize3 (ex_replace\<lparr>ratio3 := 2\<rparr>) 15
        = Inr (ex_replace\<lparr>ratio3 := 2, table3 := replicate 7 \<lparr>res3 = 0, a3 = - 1, c3 = 0\<rparr>\<rparr>)
   \<and> resize3 ex_replace 15
        = Inr (ex_replace\<lparr>table3 := map (\<lambda>e. e\<lparr>a3 := - 1\<rparr>) (table3 ex_replace)\<rparr>)
   \<and> matchapply ex_triple True (reset4 ex_apply_and) 3 5
        = Inr (- 1, miss4 True (reset4 ex_apply_and))
   \<and> matchnot 10 True (reset4 ex_apply_and) 6 = Inr (- 1, miss4 True (reset4 ex_apply_and))
   \<and> matchite ex_triple True (reset4 ex_ite) 2 3 4 = Inr (- 1, miss4 True (reset4 ex_ite))
   \<and> matchquant ex_pair True (reset4 ex_quant) 6 2 = Inr (- 1, miss4 True (reset4 ex_quant))
   \<and> matchappex ex_triple True (reset4 ex_appex) 3 5 = Inr (- 1, miss4 True (reset4 ex_appex))
   \<and> matchreplace True (reset3 ex_replace) 6 = Inr (- 1, miss3 True (reset3 ex_replace))"
proof -
  have h: "0 < ratio4 (ex_apply_and\<lparr>ratio4 := 2\<rparr>)" "ratio4 ex_apply_and = 0"
   "0 < ratio3 (ex_replace\<lparr>ratio3 := 2\<rparr>)" "ratio3 ex_replace = 0"
   "resize4 ex_apply_and 15 = Inr (reset4 ex_apply_and)" "3 \<noteq> (- 1::int)"
   "in_range (ex_triple 3 5 (apply_op (reset4 ex_apply_and))
         (int (length (table4 (reset4 ex_apply_and))))) (table4 (reset4 ex_apply_and))"
   "(0::int) \<le> 6" "table4 (reset4 ex_apply_and) \<noteq> []"
   "resize4 ex_ite 15 = Inr (reset4 ex_ite)" "2 \<noteq> (- 1::int)"
   "in_range (ex_triple 2 3 4 (int (length (table4 (reset4 ex_ite))))) (table4 (reset4 ex_ite))"
   "resize4 ex_quant 15 = Inr (reset4 ex_quant)" "6 \<noteq> (- 1::int)"
   "in_range (ex_pair 6 2 (int (length (table4 (reset4 ex_quant))))) (table4 (reset4 ex_quant))"
   "resize4 ex_appex 15 = Inr (reset4 ex_appex)"
   "in_range (ex_triple 3 5 (appex_id (reset4 ex_appex))
         (int (length (table4 (reset4 ex_appex))))) (table4 (reset4 ex_appex))"
   "resize3 ex_replace 15 = Inr (reset3 ex_replace)" "table3 (reset3 ex_replace) \<noteq> []"
    by (simp_all add: in_range_def ex_defs ex_apply_and_def resize4_def resize3_def
        reset4_def reset3_def)
  note r = resize_invalidation [where ?bc4.0 = "ex_apply_and\<lparr>ratio4 := 2\<rparr>"
      and ?fc4.0 = ex_apply_and
      and ?bc3.0 = "ex_replace\<lparr>ratio3 := 2\<rparr>" and ?fc3.0 = ex_replace and sz = 15
      and ac = ex_apply_and and ac' = "reset4 ex_apply_and" and left = 3 and right = 5
      and TRIPLE = ex_triple and DEBUG = True and n = 6 and op_not = 10
      and ic = ex_ite and ic' = "reset4 ex_ite" and f = 2 and g = 3 and h = 4
      and qc = ex_quant and qc' = "reset4 ex_quant" and PAIR = ex_pair and varset = 2
      and xc = ex_appex and xc' = "reset4 ex_appex"
      and rc = ex_replace and rc' = "reset3 ex_replace"]
  have seven: "2 \<le> (7::nat) \<and> (\<forall>d. d dvd (7::nat) \<longrightarrow> d = 1 \<or> d = 7)"
    using is_prime_7 by (simp add: is_prime_dvd)
  from r [THEN conjunct1, THEN mp, OF h(1)]
  obtain p where p: "resize4 (ex_apply_and\<lparr>ratio4 := 2\<rparr>) 15
        = Inr (ex_apply_and\<lparr>ratio4 := 2,
                 table4 := replicate p \<lparr>res4 = 0, a4 = - 1, b4 = 0, c4 = 0\<rparr>\<rparr>)"
    and lo: "7 \<le> int p"
    and mn: "\<forall>q. 2 \<le> q \<and> (\<forall>d. d dvd q \<longrightarrow> d = 1 \<or> d = q) \<and> 7 \<le> int q \<longrightarrow> p \<le> q"
    by auto
  from mn [THEN spec, of 7] seven have "p \<le> 7" by simp
  with lo have "p = 7" by linarith
  with p have c4: "resize4 (ex_apply_and\<lparr>ratio4 := 2\<rparr>) 15
        = Inr (ex_apply_and\<lparr>ratio4 := 2,
                 table4 := replicate 7 \<lparr>res4 = 0, a4 = - 1, b4 = 0, c4 = 0\<rparr>\<rparr>)"
    by simp
  from r [THEN conjunct2, THEN conjunct2, THEN conjunct1, THEN mp, OF h(3)]
  obtain p' where p': "resize3 (ex_replace\<lparr>ratio3 := 2\<rparr>) 15
        = Inr (ex_replace\<lparr>ratio3 := 2, table3 := replicate p' \<lparr>res3 = 0, a3 = - 1, c3 = 0\<rparr>\<rparr>)"
    and lo': "7 \<le> int p'"
    and mn': "\<forall>q. 2 \<le> q \<and> (\<forall>d. d dvd q \<longrightarrow> d = 1 \<or> d = q) \<and> 7 \<le> int q \<longrightarrow> p' \<le> q"
    by auto
  from mn' [THEN spec, of 7] seven have "p' \<le> 7" by simp
  with lo' have "p' = 7" by linarith
  with p' have c3: "resize3 (ex_replace\<lparr>ratio3 := 2\<rparr>) 15
        = Inr (ex_replace\<lparr>ratio3 := 2, table3 := replicate 7 \<lparr>res3 = 0, a3 = - 1, c3 = 0\<rparr>\<rparr>)"
    by simp
  note z4 = r [THEN conjunct2, THEN conjunct1, THEN mp, OF h(2)]
  note z3 = r [THEN conjunct2, THEN conjunct2, THEN conjunct2, THEN conjunct1, THEN mp, OF h(4)]
  note look = r [THEN conjunct2, THEN conjunct2, THEN conjunct2, THEN conjunct2]
  from look h have "matchapply ex_triple True (reset4 ex_apply_and) 3 5
        = Inr (- 1, miss4 True (reset4 ex_apply_and))
   \<and> matchnot 10 True (reset4 ex_apply_and) 6 = Inr (- 1, miss4 True (reset4 ex_apply_and))
   \<and> matchite ex_triple True (reset4 ex_ite) 2 3 4 = Inr (- 1, miss4 True (reset4 ex_ite))
   \<and> matchquant ex_pair True (reset4 ex_quant) 6 2 = Inr (- 1, miss4 True (reset4 ex_quant))
   \<and> matchappex ex_triple True (reset4 ex_appex) 3 5 = Inr (- 1, miss4 True (reset4 ex_appex))
   \<and> matchreplace True (reset3 ex_replace) 6 = Inr (- 1, miss3 True (reset3 ex_replace))"
    by blast
  with h c4 c3 z4 z3 show ?thesis by blast
qed

subsection \<open>The unary-keyed operations\<close>

lemma go_rem_less: "0 < m \<Longrightarrow> go_rem n m < m"
proof -
  assume m: "0 < m"
  then have "\<bar>n\<bar> mod \<bar>m\<bar> < m" "0 \<le> \<bar>n\<bar> mod \<bar>m\<bar>" by simp_all
  then show ?thesis
    by (cases "n < 0"; cases "n = 0") (simp_all add: go_rem_def)
qed

lemma go_rem_nonneg_iff: "0 < m \<Longrightarrow> 0 \<le> go_rem n m \<longleftrightarrow> 0 \<le> n \<or> m dvd n"
proof -
  assume m: "0 < m"
  show ?thesis
  proof (cases "0 \<le> n")
    case True
    with m show ?thesis by (simp add: go_rem_nonneg)
  next
    case False
    then have n: "n < 0" by simp
    with m have g: "go_rem n m = - ((- n) mod m)" by (simp add: go_rem_def)
    from m have "0 \<le> (- n) mod m" by simp
    moreover have "(- n) mod m = 0 \<longleftrightarrow> m dvd n"
      by (simp add: dvd_eq_mod_eq_0 [symmetric])
    ultimately show ?thesis using n g by linarith
  qed
qed

lemma rem_len_index:
  "(\<exists>i. rem_len n t = Inr i \<and> in_range i t) \<longleftrightarrow> t \<noteq> [] \<and> (0 \<le> n \<or> int (length t) dvd n)"
  by (cases "t = []") (auto simp: rem_len_def in_range_def go_rem_less go_rem_nonneg_iff)

lemma matchnot_returns:
  "\<not> isl (matchnot op_not DEBUG bc n)
     \<longleftrightarrow> table4 bc \<noteq> [] \<and> (0 \<le> n \<or> int (length (table4 bc)) dvd n)"
  by (cases "table4 bc = []")
    (auto simp: matchnot_def rem_len_def slot_get_def go_rem_less go_rem_nonneg_iff)

lemma setnot_returns:
  "\<not> isl (setnot op_not bc n r)
     \<longleftrightarrow> table4 bc \<noteq> [] \<and> (0 \<le> n \<or> int (length (table4 bc)) dvd n)"
  by (cases "table4 bc = []")
    (auto simp: setnot_def rem_len_def slot_set_def go_rem_less go_rem_nonneg_iff)

lemma matchreplace_returns:
  "\<not> isl (matchreplace DEBUG bc n)
     \<longleftrightarrow> table3 bc \<noteq> [] \<and> (0 \<le> n \<or> int (length (table3 bc)) dvd n)"
  by (cases "table3 bc = []")
    (auto simp: matchreplace_def rem_len_def slot_get_def go_rem_less go_rem_nonneg_iff)

lemma setreplace_returns:
  "\<not> isl (setreplace bc n r)
     \<longleftrightarrow> table3 bc \<noteq> [] \<and> (0 \<le> n \<or> int (length (table3 bc)) dvd n)"
  by (cases "table3 bc = []")
    (auto simp: setreplace_def rem_len_def slot_set_def go_rem_less go_rem_nonneg_iff)

lemma go_rem_minus_one: "2 \<le> m \<Longrightarrow> go_rem (- 1) m = - 1"
  by (simp add: go_rem_def)

lemma rem_len_minus_one: "2 \<le> length t \<Longrightarrow> rem_len (- 1) t = Inr (- 1)"
  by (auto simp: rem_len_def go_rem_minus_one)

text \<open>
  Claim C9, as stated, fails: Go's remainder of a negative multiple of the capacity is 0,
  an index of the table, so a negative \<open>n\<close> can index in bounds.  On tables of
  capacity 7, \<open>matchnot\<close> of \<open>-7\<close> reads slot 0 and misses, and \<open>setreplace\<close> of
  \<open>-7\<close> writes slot 0.
\<close>

theorem unary_index_counterexample:
  "matchnot 10 True ex_apply (- 7) = Inr (- 1, miss4 True ex_apply)
   \<and> setreplace ex_replace (- 7) 9
       = Inr (9, ex_replace\<lparr>table3 := ex_table3[0 := \<lparr>res3 = 9, a3 = - 7, c3 = 0\<rparr>]\<rparr>)"
  by (simp add: matchnot_def setreplace_def rem_len_def go_rem_def slot_get_def slot_set_def
      ex_defs)


text \<open>
  Claim C9, amended.  \<open>matchnot\<close>, \<open>setnot\<close>, \<open>matchreplace\<close> and \<open>setreplace\<close> index
  the table by Go's \<open>n % capacity\<close>; each returns without a panic exactly when the table
  is not empty and \<open>n\<close> is either not negative or a multiple of the capacity.  So every
  table access is in bounds when \<open>n \<ge> 0\<close> on a table that is not empty, and the
  sentinel \<open>-1\<close> as \<open>n\<close> indexes out of range on every table of capacity 2 or more.
\<close>

theorem unary_index_in_bounds:
  "(\<not> isl (matchnot op_not DEBUG ac n)
      \<longleftrightarrow> table4 ac \<noteq> [] \<and> (0 \<le> n \<or> int (length (table4 ac)) dvd n))
   \<and> (\<not> isl (setnot op_not ac n r)
      \<longleftrightarrow> table4 ac \<noteq> [] \<and> (0 \<le> n \<or> int (length (table4 ac)) dvd n))
   \<and> (\<not> isl (matchreplace DEBUG rc n)
      \<longleftrightarrow> table3 rc \<noteq> [] \<and> (0 \<le> n \<or> int (length (table3 rc)) dvd n))
   \<and> (\<not> isl (setreplace rc n r)
      \<longleftrightarrow> table3 rc \<noteq> [] \<and> (0 \<le> n \<or> int (length (table3 rc)) dvd n))
   \<and> (0 \<le> n \<and> table4 ac \<noteq> [] \<longrightarrow>
        \<not> isl (matchnot op_not DEBUG ac n) \<and> \<not> isl (setnot op_not ac n r))
   \<and> (0 \<le> n \<and> table3 rc \<noteq> [] \<longrightarrow>
        \<not> isl (matchreplace DEBUG rc n) \<and> \<not> isl (setreplace rc n r))
   \<and> (2 \<le> length (table4 ac) \<longrightarrow>
        matchnot op_not DEBUG ac (- 1) = Inl IndexOutOfRange
        \<and> setnot op_not ac (- 1) r = Inl IndexOutOfRange)
   \<and> (2 \<le> length (table3 rc) \<longrightarrow>
        matchreplace DEBUG rc (- 1) = Inl IndexOutOfRange
        \<and> setreplace rc (- 1) r = Inl IndexOutOfRange)"
proof (intro conjI impI)
  assume "2 \<le> length (table4 ac)"
  then show "matchnot op_not DEBUG ac (- 1) = Inl IndexOutOfRange"
    and "setnot op_not ac (- 1) r = Inl IndexOutOfRange"
    by (simp_all add: matchnot_def setnot_def rem_len_minus_one slot_get_def slot_set_def)
next
  assume "2 \<le> length (table3 rc)"
  then show "matchreplace DEBUG rc (- 1) = Inl IndexOutOfRange"
    and "setreplace rc (- 1) r = Inl IndexOutOfRange"
    by (simp_all add: matchreplace_def setreplace_def rem_len_minus_one slot_get_def
        slot_set_def)
qed (simp_all add: matchnot_returns setnot_returns matchreplace_returns setreplace_returns)

theorem unary_index_in_bounds_witness:
  "(0::int) \<le> 6 \<and> table4 ex_apply \<noteq> [] \<and> table3 ex_replace \<noteq> []
   \<and> 2 \<le> length (table4 ex_apply) \<and> 2 \<le> length (table3 ex_replace)
   \<and> \<not> isl (matchnot 10 True ex_apply 6) \<and> \<not> isl (setnot 10 ex_apply 6 9)
   \<and> \<not> isl (matchreplace True ex_replace 6) \<and> \<not> isl (setreplace ex_replace 6 9)
   \<and> matchnot 10 True ex_apply (- 1) = Inl IndexOutOfRange
   \<and> setnot 10 ex_apply (- 1) 9 = Inl IndexOutOfRange
   \<and> matchreplace True ex_replace (- 1) = Inl IndexOutOfRange
   \<and> setreplace ex_replace (- 1) 9 = Inl IndexOutOfRange"
proof -
  have h: "(0::int) \<le> 6" "table4 ex_apply \<noteq> []" "table3 ex_replace \<noteq> []"
    "2 \<le> length (table4 ex_apply)" "2 \<le> length (table3 ex_replace)"
    by (simp_all add: ex_defs)
  with unary_index_in_bounds [of 10 True ex_apply 6 9 ex_replace]
  show ?thesis by blast
qed

subsection \<open>The cache manager\<close>

text \<open>
  Claim C8.  \<open>cachereset\<close> invalidates every slot of the five caches and changes
  nothing else: the register \<open>quantset\<close>, \<open>quantsetID\<close>, \<open>quantlast\<close>, the node table,
  \<open>varnum\<close> and \<open>error\<close> are the same, and so are each cache's capacity, ratio,
  counters and discriminant fields, and the \<open>res\<close>, \<open>b\<close> and \<open>c\<close> fields of every slot.
\<close>

theorem cachereset_frame:
  "quantset (cachereset b) = quantset b
   \<and> quantsetID (cachereset b) = quantsetID b
   \<and> quantlast (cachereset b) = quantlast b
   \<and> nodes (cachereset b) = nodes b
   \<and> varnum (cachereset b) = varnum b
   \<and> error (cachereset b) = error b
   \<and> list_all (\<lambda>e. a4 e = - 1) (table4 (applycache (cachereset b)))
   \<and> list_all (\<lambda>e. a4 e = - 1) (table4 (itecache (cachereset b)))
   \<and> list_all (\<lambda>e. a4 e = - 1) (table4 (quantcache (cachereset b)))
   \<and> list_all (\<lambda>e. a4 e = - 1) (table4 (appexcache (cachereset b)))
   \<and> list_all (\<lambda>e. a3 e = - 1) (table3 (replacecache (cachereset b)))
   \<and> applycache (cachereset b)
        = (applycache b)\<lparr>table4 := map (\<lambda>e. e\<lparr>a4 := - 1\<rparr>) (table4 (applycache b))\<rparr>
   \<and> itecache (cachereset b)
        = (itecache b)\<lparr>table4 := map (\<lambda>e. e\<lparr>a4 := - 1\<rparr>) (table4 (itecache b))\<rparr>
   \<and> quantcache (cachereset b)
        = (quantcache b)\<lparr>table4 := map (\<lambda>e. e\<lparr>a4 := - 1\<rparr>) (table4 (quantcache b))\<rparr>
   \<and> appexcache (cachereset b)
        = (appexcache b)\<lparr>table4 := map (\<lambda>e. e\<lparr>a4 := - 1\<rparr>) (table4 (appexcache b))\<rparr>
   \<and> replacecache (cachereset b)
        = (replacecache b)\<lparr>table3 := map (\<lambda>e. e\<lparr>a3 := - 1\<rparr>) (table3 (replacecache b))\<rparr>
   \<and> length (table4 (applycache (cachereset b))) = length (table4 (applycache b))
   \<and> length (table4 (itecache (cachereset b))) = length (table4 (itecache b))
   \<and> length (table4 (quantcache (cachereset b))) = length (table4 (quantcache b))
   \<and> length (table4 (appexcache (cachereset b))) = length (table4 (appexcache b))
   \<and> length (table3 (replacecache (cachereset b))) = length (table3 (replacecache b))
   \<and> ratio4 (applycache (cachereset b)) = ratio4 (applycache b)
   \<and> ratio4 (itecache (cachereset b)) = ratio4 (itecache b)
   \<and> ratio4 (quantcache (cachereset b)) = ratio4 (quantcache b)
   \<and> ratio4 (appexcache (cachereset b)) = ratio4 (appexcache b)
   \<and> ratio3 (replacecache (cachereset b)) = ratio3 (replacecache b)
   \<and> apply_op (applycache (cachereset b)) = apply_op (applycache b)
   \<and> quant_id (quantcache (cachereset b)) = quant_id (quantcache b)
   \<and> appex_op (appexcache (cachereset b)) = appex_op (appexcache b)
   \<and> appex_id (appexcache (cachereset b)) = appex_id (appexcache b)
   \<and> replace_id (replacecache (cachereset b)) = replace_id (replacecache b)"
  by (simp add: cachereset_def reset4_def reset3_def list_all_iff)

subsection \<open>The chain walk\<close>

lemma varchain_stepI:
  "1 < i \<Longrightarrow> i < int (length ns) \<Longrightarrow> l = level (ns ! nat i) \<Longrightarrow> j = high (ns ! nat i)
     \<Longrightarrow> varchain ns j ls \<Longrightarrow> varchain ns i (l # ls)"
  by (simp add: varchain_step)

lemma ex_varchain: "varchain ex_nodes 2 [0, 2]"
proof -
  have e1: "varchain ex_nodes 1 []" by (rule varchain_end) simp
  have e3: "varchain ex_nodes 3 [2]"
    by (rule varchain_stepI [where j = 1, OF _ _ _ _ e1]) (simp_all add: ex_nodes_def)
  show ?thesis
    by (rule varchain_stepI [where j = 3, OF _ _ _ _ e3]) (simp_all add: ex_nodes_def)
qed

lemma length_mark [simp]: "length (mark qs ls g) = length qs"
  by (induction ls arbitrary: qs) simp_all

lemma quantset_loop_chain:
  assumes "varchain ns i ls" and "nodes b = ns"
  shows "quantset_loop b i =
     (if list_all (\<lambda>l. in_range l (quantset b)) ls
      then Some (Inr (b\<lparr>quantset := mark (quantset b) ls (quantsetID b),
                       quantlast := last (quantlast b # ls)\<rparr>))
      else Some (Inl IndexOutOfRange))"
  using assms
proof (induction arbitrary: b rule: varchain.induct)
  case (varchain_end i ns)
  then show ?case by (subst quantset_loop.simps) simp
next
  case (varchain_step i ns ls)
  let ?nd = "ns ! nat i"
  from varchain_step.hyps varchain_step.prems
  have get: "slot_get (nodes b) i = Inr ?nd"
    by (simp add: slot_get_def)
  show ?case
  proof (cases "in_range (level ?nd) (quantset b)")
    case False
    then have "slot_set (quantset b) (level ?nd) (quantsetID b) = Inl IndexOutOfRange"
      by (simp add: slot_set_def in_range_def)
    with get varchain_step.hyps False show ?thesis
      by (subst quantset_loop.simps) simp
  next
    case True
    let ?b = "b\<lparr>quantset := (quantset b)[nat (level ?nd) := quantsetID b],
                quantlast := level ?nd\<rparr>"
    from True have set: "slot_set (quantset b) (level ?nd) (quantsetID b)
        = Inr ((quantset b)[nat (level ?nd) := quantsetID b])"
      by (rule slot_set_in_range)
    have "nodes ?b = ns" using varchain_step.prems by simp
    from varchain_step.IH [OF this] get set varchain_step.hyps True show ?thesis
      by (subst quantset_loop.simps) (simp add: in_range_def)
  qed
qed


lemma nth_mark:
  "\<forall>l\<in>set ls. 0 \<le> l \<Longrightarrow> k < length qs
     \<Longrightarrow> mark qs ls g ! k = (if int k \<in> set ls then g else qs ! k)"
proof (induction ls arbitrary: qs)
  case Nil
  then show ?case by simp
next
  case (Cons l ls)
  from Cons.prems have l: "0 \<le> l" and ls: "\<forall>l\<in>set ls. 0 \<le> l" by simp_all
  from l have eq: "k = nat l \<longleftrightarrow> int k = l" by auto
  from Cons.prems have k: "k < length (qs[nat l := g])" by simp
  have "mark (qs[nat l := g]) ls g ! k = (if int k \<in> set ls then g else qs[nat l := g] ! k)"
    by (rule Cons.IH [OF ls k])
  moreover have "qs[nat l := g] ! k = (if int k = l then g else qs ! k)"
    using Cons.prems(2) eq by (auto simp: nth_list_update)
  ultimately show ?case by simp
qed

lemma sint_MaxInt32: "sint MaxInt32 = 2147483647"
  by (simp add: MaxInt32_def)

lemma sint_succ32:
  fixes x :: "32 word"
  assumes "x \<noteq> MaxInt32"
  shows "sint (x + 1) = sint x + 1"
proof -
  have "sint x \<noteq> sint MaxInt32"
    using assms by (auto dest: signed_word_eqI)
  moreover have "sint x < 2 ^ 31" "- (2 ^ 31) \<le> sint x"
    using sint_lt [of x] sint_ge [of x] by simp_all
  ultimately have "- (2 ^ 31) \<le> sint x + 1" "sint x + 1 < 2 ^ 31"
    by (simp_all add: sint_MaxInt32)
  then have "signed_take_bit 31 (sint x + 1) = sint x + 1"
    by (rule signed_take_bit_int_eq_self)
  then show ?thesis
    by (simp add: sint_word_ariths)
qed

lemma quantset2cache_terminal:
  "n < 2 \<Longrightarrow> quantset2cache b n
     = Some (Inr (Some (Errorf ''Illegal variable (%d) in varset to cache'' [n]),
                  b\<lparr>error := Some (Errorf ''Illegal variable (%d) in varset to cache'' [n])\<rparr>))"
  by (simp add: quantset2cache_def seterror_def)

lemma quantset2cache_nowrap:
  assumes "2 \<le> n" and "varchain (nodes b) n ls" and "quantsetID b + 1 \<noteq> MaxInt32"
  shows "quantset2cache b n =
     (if list_all (\<lambda>l. in_range l (quantset b)) ls
      then Some (Inr (None, b\<lparr>quantset := mark (quantset b) ls (quantsetID b + 1),
                                quantsetID := quantsetID b + 1,
                                quantlast := last (quantlast b # ls)\<rparr>))
      else Some (Inl IndexOutOfRange))"
proof -
  let ?b1 = "b\<lparr>quantsetID := quantsetID b + 1\<rparr>"
  have "varchain (nodes b) n ls" "nodes ?b1 = nodes b" using assms by simp_all
  from quantset_loop_chain [OF this] assms(1,3) show ?thesis
    by (simp add: quantset2cache_def)
qed

lemma quantset2cache_wrap:
  assumes "2 \<le> n" and "varchain (nodes b) n ls" and "quantsetID b + 1 = MaxInt32"
    and "0 \<le> varnum b"
  shows "quantset2cache b n =
     (if list_all (\<lambda>l. 0 \<le> l \<and> l < varnum b) ls
      then Some (Inr (None, b\<lparr>quantset := mark (replicate (nat (varnum b)) 0) ls 1,
                                quantsetID := 1,
                                quantlast := last (quantlast b # ls)\<rparr>))
      else Some (Inl IndexOutOfRange))"
proof -
  let ?b1 = "b\<lparr>quantset := replicate (nat (varnum b)) 0, quantsetID := 1\<rparr>"
  have "varchain (nodes b) n ls" "nodes ?b1 = nodes b" using assms by simp_all
  from quantset_loop_chain [OF this] assms(1,3,4) show ?thesis
    by (simp add: quantset2cache_def make_slice_def in_range_def)
qed

lemma quantset2cache_wrap_neg:
  assumes "2 \<le> n" and "quantsetID b + 1 = MaxInt32" and "varnum b < 0"
  shows "quantset2cache b n = Some (Inl MakeSliceLen)"
  using assms by (simp add: quantset2cache_def make_slice_def)


lemma varchain_nonterminal: "varchain ns n ls \<Longrightarrow> 2 \<le> n \<Longrightarrow> ls \<noteq> []"
  by (cases rule: varchain.cases) auto

lemma quantset_loop_varchain:
  assumes "quantset_loop b i = Some r"
  shows "\<forall>b'. r = Inr b' \<longrightarrow> (\<exists>ls. varchain (nodes b) i ls)"
  using assms
proof (induct rule: quantset_loop.raw_induct)
  case (1 loop b i r)
  note IH = 1(1) and body = 1(2) and run = 1(3)
  show ?case
  proof (intro allI impI)
    fix b' assume r: "r = Inr b'"
    show "\<exists>ls. varchain (nodes b) i ls"
    proof (cases "1 < i")
      case False
      then have "varchain (nodes b) i []" by (intro varchain_end) simp
      then show ?thesis ..
    next
      case True
      with body r obtain nd where nd: "slot_get (nodes b) i = Inr nd"
        by (cases "slot_get (nodes b) i") auto
      then have i: "i < int (length (nodes b))" and nd': "nd = nodes b ! nat i"
        by (auto simp: slot_get_def split: if_splits)
      from True nd body r obtain qs where
        qs: "slot_set (quantset b) (level nd) (quantsetID b) = Inr qs"
        by (cases "slot_set (quantset b) (level nd) (quantsetID b)") auto
      with True nd body
      have "loop (b\<lparr>quantset := qs, quantlast := level nd\<rparr>) (high nd) = Some r" by simp
      moreover from True nd qs run
      have "quantset_loop (b\<lparr>quantset := qs, quantlast := level nd\<rparr>) (high nd) = Some r"
        by (subst (asm) quantset_loop.simps) simp
      ultimately obtain ls where "varchain (nodes b) (high nd) ls"
        using IH r by fastforce
      with True i nd' show ?thesis by (auto intro: varchain_step)
    qed
  qed
qed (rule assms)

lemma quantset2cache_success:
  assumes ok: "quantset2cache b n = Some (Inr (None, b'))" and ch: "varchain (nodes b) n ls"
  shows "2 \<le> n \<and> ls \<noteq> []
    \<and> (quantsetID b + 1 \<noteq> MaxInt32 \<longrightarrow>
         list_all (\<lambda>l. in_range l (quantset b)) ls
         \<and> b' = b\<lparr>quantset := mark (quantset b) ls (quantsetID b + 1),
                   quantsetID := quantsetID b + 1, quantlast := last ls\<rparr>)
    \<and> (quantsetID b + 1 = MaxInt32 \<longrightarrow>
         0 \<le> varnum b \<and> list_all (\<lambda>l. 0 \<le> l \<and> l < varnum b) ls
         \<and> b' = b\<lparr>quantset := mark (replicate (nat (varnum b)) 0) ls 1,
                   quantsetID := 1, quantlast := last ls\<rparr>)"
proof -
  have n: "2 \<le> n"
    using ok quantset2cache_terminal [of n b] by (cases "n < 2") auto
  with ch have ls: "ls \<noteq> []" by (rule varchain_nonterminal)
  have "0 \<le> varnum b" if "quantsetID b + 1 = MaxInt32"
    using ok quantset2cache_wrap_neg [OF n that] by (cases "varnum b < 0") auto
  with ok n ls show ?thesis
    using quantset2cache_nowrap [OF n ch] quantset2cache_wrap [OF n ch]
    by (auto split: if_splits)
qed


lemma returned_nil_iff:
  "map_sum id (Pair None) z = Inr (None, b') \<longleftrightarrow> z = Inr b'"
  by (cases z) auto

lemma quantset2cache_varchain:
  assumes "quantset2cache b n = Some (Inr (None, b'))"
  shows "\<exists>ls. varchain (nodes b) n ls"
proof -
  have n: "2 \<le> n"
    using assms quantset2cache_terminal [of n b] by (cases "n < 2") auto
  show ?thesis
  proof (cases "quantsetID b + 1 = MaxInt32")
    case False
    with assms n have "quantset_loop (b\<lparr>quantsetID := quantsetID b + 1\<rparr>) n = Some (Inr b')"
      by (auto simp: quantset2cache_def returned_nil_iff)
    from quantset_loop_varchain [OF this] show ?thesis by simp
  next
    case True
    with assms n have
      "quantset_loop (b\<lparr>quantset := replicate (nat (varnum b)) 0, quantsetID := 1\<rparr>) n
         = Some (Inr b')"
      by (cases "varnum b < 0") (auto simp: quantset2cache_def returned_nil_iff make_slice_def)
    from quantset_loop_varchain [OF this] show ?thesis by simp
  qed
qed


lemma last_Max: "sorted ls \<Longrightarrow> ls \<noteq> [] \<Longrightarrow> last ls = Max (set ls)"
  for ls :: "int list"
proof -
  assume s: "sorted ls" and ne: "ls \<noteq> []"
  have "Max (set ls) = last ls"
  proof (rule Max_eqI)
    show "finite (set ls)" by simp
    show "last ls \<in> set ls" using ne by simp
    show "y \<le> last ls" if "y \<in> set ls" for y
      using s that by (induction ls) (auto split: if_splits)
  qed
  then show ?thesis by simp
qed

subsection \<open>The variable-set register\<close>

lemma ex_quantset2cache:
  "quantset2cache ex_buddy 2 = Some (Inr (None, ex_buddy_marked))"
  by (simp add: quantset2cache_def quantset_loop.simps ex_buddy_def ex_buddy_marked_def
      ex_nodes_def MaxInt32_def slot_get_def slot_set_def)

lemma ex_quantset2cache_wrap:
  "quantset2cache ex_buddy_last 2 = Some (Inr (None, ex_buddy_wrapped))"
  by (simp add: quantset2cache_def quantset_loop.simps ex_buddy_def ex_buddy_last_def
      ex_buddy_wrapped_def ex_nodes_def MaxInt32_def slot_get_def slot_set_def make_slice_def
      numeral_3_eq_3)

text \<open>
  Claim C5.  A successful \<open>quantset2cache\<close> increments \<open>quantsetID\<close> (as a signed
  32-bit value, without wrap-around) unless the incremented value is \<open>MaxInt32\<close>; then
  the register is a fresh all-zero slice of \<open>varnum\<close> entries in which only the levels
  of this call's chain are marked, and \<open>quantsetID\<close> is 1: a level that is not on the
  chain holds 0, whatever generation it was marked with before, and does not match the
  counter.  The counter is taken to be below \<open>MaxInt32\<close> before the call, as it is
  after every call.
\<close>

theorem generation_counter:
  "(quantset2cache b n = Some (Inr (None, b')) \<and> quantsetID b \<noteq> MaxInt32
      \<and> quantsetID b + 1 \<noteq> MaxInt32 \<longrightarrow>
        sint (quantsetID b') = sint (quantsetID b) + 1
        \<and> sint (quantsetID b) < sint (quantsetID b')
        \<and> quantsetID b' \<noteq> MaxInt32)
   \<and> (quantset2cache w m = Some (Inr (None, w')) \<and> varchain (nodes w) m ks
      \<and> quantsetID w + 1 = MaxInt32 \<longrightarrow>
        quantsetID w' = 1
        \<and> quantsetID w' \<noteq> MaxInt32
        \<and> length (quantset w') = nat (varnum w)
        \<and> (\<forall>k<length (quantset w'). quantset w' ! k = (if int k \<in> set ks then 1 else 0))
        \<and> (\<forall>k<length (quantset w'). int k \<notin> set ks \<longrightarrow> quantset w' ! k \<noteq> quantsetID w'))"
proof (intro conjI impI)
  assume a: "quantset2cache b n = Some (Inr (None, b')) \<and> quantsetID b \<noteq> MaxInt32
      \<and> quantsetID b + 1 \<noteq> MaxInt32"
  then obtain ls where "varchain (nodes b) n ls"
    using quantset2cache_varchain by blast
  with a have "quantsetID b' = quantsetID b + 1"
    using quantset2cache_success [of b n b' ls] by auto
  with a show "sint (quantsetID b') = sint (quantsetID b) + 1"
    and "sint (quantsetID b) < sint (quantsetID b')" and "quantsetID b' \<noteq> MaxInt32"
    by (simp_all add: sint_succ32)
next
  assume a: "quantset2cache w m = Some (Inr (None, w')) \<and> varchain (nodes w) m ks
      \<and> quantsetID w + 1 = MaxInt32"
  then have v: "0 \<le> varnum w" and r: "list_all (\<lambda>l. 0 \<le> l \<and> l < varnum w) ks"
    and w': "w' = w\<lparr>quantset := mark (replicate (nat (varnum w)) 0) ks 1,
                     quantsetID := 1, quantlast := last ks\<rparr>"
    using quantset2cache_success [of w m w' ks] by auto
  from w' show "quantsetID w' = 1" by simp
  from w' show "quantsetID w' \<noteq> MaxInt32" by (simp add: MaxInt32_def)
  from w' show "length (quantset w') = nat (varnum w)" by simp
  from r have nn: "\<forall>l\<in>set ks. 0 \<le> l" by (simp add: list_all_iff)
  have nth: "quantset w' ! k = (if int k \<in> set ks then 1 else 0)" if "k < length (quantset w')" for k
    using that nth_mark [OF nn, of k "replicate (nat (varnum w)) 0" 1] w' by simp
  then show "\<forall>k<length (quantset w'). quantset w' ! k = (if int k \<in> set ks then 1 else 0)"
    by blast
  from nth w' show "\<forall>k<length (quantset w'). int k \<notin> set ks \<longrightarrow> quantset w' ! k \<noteq> quantsetID w'"
    by simp
qed

theorem generation_counter_witness:
  "quantset2cache ex_buddy 2 = Some (Inr (None, ex_buddy_marked))
   \<and> quantsetID ex_buddy \<noteq> MaxInt32 \<and> quantsetID ex_buddy + 1 \<noteq> MaxInt32
   \<and> quantset2cache ex_buddy_last 2 = Some (Inr (None, ex_buddy_wrapped))
   \<and> varchain (nodes ex_buddy_last) 2 [0, 2] \<and> quantsetID ex_buddy_last + 1 = MaxInt32
   \<and> sint (quantsetID ex_buddy_marked) = sint (quantsetID ex_buddy) + 1
   \<and> sint (quantsetID ex_buddy) < sint (quantsetID ex_buddy_marked)
   \<and> quantsetID ex_buddy_marked \<noteq> MaxInt32
   \<and> quantsetID ex_buddy_wrapped = 1
   \<and> quantsetID ex_buddy_wrapped \<noteq> MaxInt32
   \<and> length (quantset ex_buddy_wrapped) = nat (varnum ex_buddy_last)
   \<and> quantset ex_buddy_wrapped ! 0 = 1
   \<and> quantset ex_buddy_wrapped ! 1 = 0
   \<and> quantset ex_buddy_wrapped ! 2 = 1
   \<and> quantset ex_buddy_wrapped ! 1 \<noteq> quantsetID ex_buddy_wrapped"
proof -
  have h: "quantset2cache ex_buddy 2 = Some (Inr (None, ex_buddy_marked))"
    "quantsetID ex_buddy \<noteq> MaxInt32" "quantsetID ex_buddy + 1 \<noteq> MaxInt32"
    "quantset2cache ex_buddy_last 2 = Some (Inr (None, ex_buddy_wrapped))"
    "varchain (nodes ex_buddy_last) 2 [0, 2]" "quantsetID ex_buddy_last + 1 = MaxInt32"
    using ex_varchain
    by (simp_all add: ex_quantset2cache ex_quantset2cache_wrap)
      (simp_all add: ex_buddy_def ex_buddy_last_def MaxInt32_def)
  note g = generation_counter [of ex_buddy 2 ex_buddy_marked ex_buddy_last 2 ex_buddy_wrapped
      "[0, 2]"]
  from g h have inc: "sint (quantsetID ex_buddy_marked) = sint (quantsetID ex_buddy) + 1
      \<and> sint (quantsetID ex_buddy) < sint (quantsetID ex_buddy_marked)
      \<and> quantsetID ex_buddy_marked \<noteq> MaxInt32"
    by blast
  from g h have wrap: "quantsetID ex_buddy_wrapped = 1
      \<and> quantsetID ex_buddy_wrapped \<noteq> MaxInt32
      \<and> length (quantset ex_buddy_wrapped) = nat (varnum ex_buddy_last)"
    by blast
  from g h have nth: "quantset ex_buddy_wrapped ! k = (if int k \<in> set [0, 2] then 1 else 0)"
    if "k < length (quantset ex_buddy_wrapped)" for k
    using that by blast
  have len: "length (quantset ex_buddy_wrapped) = 3"
    by (simp add: ex_buddy_wrapped_def)
  have "quantset ex_buddy_wrapped ! 0 = 1" "quantset ex_buddy_wrapped ! 1 = 0"
    "quantset ex_buddy_wrapped ! 2 = 1"
    using nth [of 0] nth [of 1] nth [of 2] len by simp_all
  with h inc wrap show ?thesis by (simp add: MaxInt32_def)

qed


text \<open>
  Claim C6, as stated, fails: the loop assigns \<open>quantlast\<close> at every node without
  comparing, so \<open>quantlast\<close> is the level of the last node visited.  On the chain that
  visits level 2 and then level 0 the call succeeds and leaves \<open>quantlast = 0\<close>, while
  the maximal level visited is 2.
\<close>

theorem quantlast_counterexample:
  "quantset2cache ex_buddy_rev 2 = Some (Inr (None, ex_buddy_rev_marked))
   \<and> varchain (nodes ex_buddy_rev) 2 [2, 0]
   \<and> quantlast ex_buddy_rev_marked = 0
   \<and> Max (set [2, 0 :: int]) = 2"
proof -
  have e1: "varchain ex_nodes_rev 1 []" by (rule varchain_end) simp
  have e3: "varchain ex_nodes_rev 3 [0]"
    by (rule varchain_stepI [where j = 1, OF _ _ _ _ e1]) (simp_all add: ex_nodes_rev_def)
  have "varchain ex_nodes_rev 2 [2, 0]"
    by (rule varchain_stepI [where j = 3, OF _ _ _ _ e3]) (simp_all add: ex_nodes_rev_def)
  moreover have "quantset2cache ex_buddy_rev 2 = Some (Inr (None, ex_buddy_rev_marked))"
    by (simp add: quantset2cache_def quantset_loop.simps ex_buddy_def ex_buddy_rev_def
        ex_buddy_rev_marked_def ex_nodes_rev_def MaxInt32_def slot_get_def slot_set_def)
  ultimately show ?thesis
    by (simp add: ex_buddy_rev_def ex_buddy_rev_marked_def)
qed

text \<open>
  Claim C6, amended.  After a successful \<open>quantset2cache\<close> (its chain head is then not
  a terminal), every level on the chain is an index of the register and is marked there
  with the current \<open>quantsetID\<close>, and \<open>quantlast\<close> is the level of the last node of
  the chain; that is the maximal level visited when the levels do not decrease along
  the high links, as in an ordered diagram.
\<close>

theorem quantlast_and_marks:
  assumes "quantset2cache b n = Some (Inr (None, b'))" and "varchain (nodes b) n ls"
  shows "2 \<le> n \<and> ls \<noteq> []
    \<and> quantlast b' = last ls
    \<and> (sorted ls \<longrightarrow> quantlast b' = Max (set ls))
    \<and> (\<forall>l\<in>set ls. in_range l (quantset b') \<and> quantset b' ! nat l = quantsetID b')"
proof -
  note s = quantset2cache_success [OF assms]
  then have n: "2 \<le> n" and ne: "ls \<noteq> []" by simp_all
  have lst: "quantlast b' = last ls"
    using s by (cases "quantsetID b + 1 = MaxInt32") simp_all
  obtain qs where r: "list_all (\<lambda>l. in_range l qs) ls"
    and q: "quantset b' = mark qs ls (quantsetID b')"
  proof (cases "quantsetID b + 1 = MaxInt32")
    case True
    with s have "list_all (\<lambda>l. in_range l (replicate (nat (varnum b)) 0)) ls"
      and "quantset b' = mark (replicate (nat (varnum b)) 0) ls (quantsetID b')"
      by (simp_all add: in_range_def list_all_iff)
    then show ?thesis by (rule that)
  next
    case False
    with s have "list_all (\<lambda>l. in_range l (quantset b)) ls"
      and "quantset b' = mark (quantset b) ls (quantsetID b')"
      by simp_all
    then show ?thesis by (rule that)
  qed
  from r have nn: "\<forall>l\<in>set ls. 0 \<le> l"
    by (simp add: list_all_iff in_range_def)
  have "in_range l (quantset b') \<and> quantset b' ! nat l = quantsetID b'" if "l \<in> set ls" for l
  proof -
    from r that have l: "in_range l qs" by (simp add: list_all_iff)
    then have k: "nat l < length qs" and i: "int (nat l) = l"
      by (simp_all add: in_range_def nat_less_iff)
    from l q have "in_range l (quantset b')" by (simp add: in_range_def)
    moreover from nth_mark [OF nn k, of "quantsetID b'"] that i q
    have "quantset b' ! nat l = quantsetID b'" by simp
    ultimately show ?thesis ..
  qed
  with n ne lst show ?thesis by (simp add: last_Max)
qed

theorem quantlast_and_marks_witness:
  "quantset2cache ex_buddy 2 = Some (Inr (None, ex_buddy_marked))
   \<and> varchain (nodes ex_buddy) 2 [0, 2] \<and> sorted [0, 2 :: int]
   \<and> (2::int) \<le> 2 \<and> [0, 2 :: int] \<noteq> []
   \<and> quantlast ex_buddy_marked = last [0, 2]
   \<and> quantlast ex_buddy_marked = Max (set [0, 2])
   \<and> in_range 0 (quantset ex_buddy_marked)
   \<and> quantset ex_buddy_marked ! nat 0 = quantsetID ex_buddy_marked
   \<and> in_range 2 (quantset ex_buddy_marked)
   \<and> quantset ex_buddy_marked ! nat 2 = quantsetID ex_buddy_marked"
proof -
  have h: "quantset2cache ex_buddy 2 = Some (Inr (None, ex_buddy_marked))"
    "varchain (nodes ex_buddy) 2 [0, 2]" "sorted [0, 2 :: int]"
    using ex_varchain by (simp_all add: ex_quantset2cache) (simp add: ex_buddy_def)
  from quantlast_and_marks [OF h(1,2)] h show ?thesis by simp
qed




text \<open>
  Claim C10.  When the chain head is below 2, \<open>quantset2cache\<close> returns an error and
  leaves \<open>quantsetID\<close>, the register \<open>quantset\<close> and \<open>quantlast\<close> as they were; of the
  engine state only the recorded error changes.
\<close>

theorem error_leaves_state:
  "n < 2 \<Longrightarrow> \<exists>e b'. quantset2cache b n = Some (Inr (Some e, b'))
     \<and> quantsetID b' = quantsetID b \<and> quantset b' = quantset b \<and> quantlast b' = quantlast b
     \<and> b' = b\<lparr>error := Some e\<rparr>"
  by (simp add: quantset2cache_terminal)

theorem error_leaves_state_witness:
  "(1::int) < 2 \<and> (\<exists>e b'. quantset2cache ex_buddy 1 = Some (Inr (Some e, b'))
     \<and> quantsetID b' = quantsetID ex_buddy \<and> quantset b' = quantset ex_buddy
     \<and> quantlast b' = quantlast ex_buddy \<and> b' = ex_buddy\<lparr>error := Some e\<rparr>)"
proof -
  have h: "(1::int) < 2" by simp
  from error_leaves_state [OF h, of ex_buddy] h show ?thesis by blast
qed

end
